theory Spec2Isabelle
  imports Main "HOL-Library.Word" "HOL-Library.AList" "HOL-Library.Signed_Division"
begin

unbundle bit_operations_syntax

section \<open>The CloudWatch Logs exporter (exporter.go)\<close>

subsection \<open>Data of the pipeline (pdata)\<close>

text \<open>
  Go's \<open>float64\<close>. The exporter never computes with a double: it copies the value into
  the event body, and \<open>json.Marshal\<close> rejects the three non-finite classes. A finite
  value is kept as mantissa and exponent.
\<close>

datatype float64 = Finite int int | PosInf | NegInf | NaN

text \<open>
  \<open>pdata.AttributeValue\<close>: a tagged union. \<open>AttributeValueTypeBytes\<close> is the tag that
  the switch of \<open>attrValue\<close> does not name. A \<open>pdata.AttributeMap\<close> is a slice of
  key/value pairs, ranged over in slice order; an array is a slice of values.
\<close>

datatype AttributeValue =
    AttributeValueTypeEmpty
  | AttributeValueTypeString string
  | AttributeValueTypeInt "64 word"
  | AttributeValueTypeDouble float64
  | AttributeValueTypeBool bool
  | AttributeValueTypeMap "(string \<times> AttributeValue) list"
  | AttributeValueTypeArray "AttributeValue list"
  | AttributeValueTypeBytes "8 word list"

type_synonym AttributeMap = "(string \<times> AttributeValue) list"

text \<open>
  Go's \<open>interface{}\<close> as \<open>attrValue\<close> fills it: \<open>nil\<close>, an \<open>int64\<close>, a \<open>bool\<close>, a
  \<open>float64\<close>, a \<open>string\<close>, a \<open>map[string]interface{}\<close> or a \<open>[]interface{}\<close>. A Go map
  has one value per key: it is an association list with distinct keys, and the
  assignment \<open>values[k] = v\<close> is \<open>AList.update k v\<close>.
\<close>

datatype iface =
    INil
  | IInt64 "64 word"
  | IBool bool
  | IFloat64 float64
  | IString string
  | IMap "(string \<times> iface) list"
  | ISlice "iface list"

type_synonym gomap = "(string \<times> iface) list"

subsection \<open>attrValue and attrsValue\<close>

text \<open>
  \<open>attrValue\<close> switches on the type tag, in the order of the source; the last equation
  is the \<open>default\<close> branch. The loop over a map assigns \<open>values[k] = attrValue(v)\<close> in
  range order, the loop over an array fills \<open>values[i] = attrValue(arrayVal.At(i))\<close>
  for every index.
\<close>

fun attrValue :: "AttributeValue \<Rightarrow> iface" where
  "attrValue (AttributeValueTypeInt i) = IInt64 i"
| "attrValue (AttributeValueTypeBool b) = IBool b"
| "attrValue (AttributeValueTypeDouble d) = IFloat64 d"
| "attrValue (AttributeValueTypeString s) = IString s"
| "attrValue (AttributeValueTypeMap kvs) =
     IMap (fold (\<lambda>kv values. AList.update (fst kv) (attrValue (snd kv)) values) kvs [])"
| "attrValue (AttributeValueTypeArray vs) = ISlice (map attrValue vs)"
| "attrValue AttributeValueTypeEmpty = INil"
| "attrValue _ = INil"

text \<open>
  \<open>attrsValue\<close> returns the \<open>nil\<close> map (\<open>None\<close>) for a collection with no entries.
\<close>

definition attrsValue :: "AttributeMap \<Rightarrow> gomap option" where
  "attrsValue attrs =
     (if length attrs = 0 then None
      else Some (fold (\<lambda>kv out. AList.update (fst kv) (attrValue (snd kv)) out) attrs []))"

subsection \<open>Log records and batches\<close>

text \<open>
  \<open>pdata.LogRecord\<close>, read through its accessors. The timestamp is a \<open>uint64\<close> of
  nanoseconds, the trace identifier 16 bytes, the span identifier 8 bytes.
\<close>

record LogRecord =
  logName :: string
  logBody :: AttributeValue
  logSeverityNumber :: "32 word"
  logSeverityText :: string
  logDroppedAttributesCount :: "32 word"
  logFlags :: "32 word"
  logTraceID :: "128 word"
  logSpanID :: "64 word"
  logAttributes :: AttributeMap
  logTimestamp :: "64 word"

record InstrumentationLibraryLogs =
  Logs :: "LogRecord list"

record ResourceLogs =
  ResourceAttributes :: AttributeMap
  InstrumentationLibraryLogs :: "InstrumentationLibraryLogs list"

type_synonym Logs = "ResourceLogs list"

text \<open>
  \<open>IsEmpty\<close> and \<open>HexString\<close> of an identifier: empty is all bytes zero; the hex string
  is lower case, two digits a byte, most significant byte first, and \<open>""\<close> for the
  empty identifier.
\<close>

definition hexdigit :: "nat \<Rightarrow> char" where
  "hexdigit n = ''0123456789abcdef'' ! (n mod 16)"

definition EncodeToString :: "nat \<Rightarrow> 'a::len word \<Rightarrow> string" where
  "EncodeToString nbytes w =
     map (\<lambda>i. hexdigit (unat (drop_bit (4 * i) w AND 15))) (rev [0..<2 * nbytes])"

definition IsEmpty :: "'a::len word \<Rightarrow> bool" where
  "IsEmpty w = (w = 0)"

definition HexString :: "nat \<Rightarrow> 'a::len word \<Rightarrow> string" where
  "HexString nbytes w = (if IsEmpty w then [] else EncodeToString nbytes w)"

subsection \<open>The event body and its JSON encoding\<close>

datatype error = UnsupportedValueError | PusherError string

record cwLogBody =
  Name :: string
  Body :: iface
  SeverityNumber :: "32 word"
  SeverityText :: string
  DroppedAttributesCount :: "32 word"
  Flags :: "32 word"
  TraceID :: string
  SpanID :: string
  Attributes :: "gomap option"
  Resource :: "gomap option"

text \<open>
  A JSON document. The message of an event is kept as the document that its text
  denotes: escaping and number formatting are \<open>encoding/json\<close>'s, and decoding the text
  gives this document back. The order of an object's members carries no meaning.
\<close>

datatype json =
    JNull
  | JBool bool
  | JInt int
  | JFloat int int
  | JString string
  | JArray "json list"
  | JObject "(string \<times> json) list"

text \<open>
  \<open>json.Marshal\<close> on the values of \<open>attrValue\<close>. It fails with an
  \<open>UnsupportedValueError\<close> on a NaN or an infinite \<open>float64\<close>, wherever it sits, and
  on nothing else that \<open>attrValue\<close> can produce.
\<close>

fun supported :: "iface \<Rightarrow> bool" where
  "supported (IFloat64 d) = (case d of Finite m e \<Rightarrow> True | _ \<Rightarrow> False)"
| "supported (IMap kvs) = list_all (\<lambda>kv. supported (snd kv)) kvs"
| "supported (ISlice vs) = list_all supported vs"
| "supported _ = True"

fun encodeValue :: "iface \<Rightarrow> json" where
  "encodeValue INil = JNull"
| "encodeValue (IInt64 i) = JInt (sint i)"
| "encodeValue (IBool b) = JBool b"
| "encodeValue (IFloat64 d) = (case d of Finite m e \<Rightarrow> JFloat m e | _ \<Rightarrow> JNull)"
| "encodeValue (IString s) = JString s"
| "encodeValue (IMap kvs) = JObject (map (\<lambda>kv. (fst kv, encodeValue (snd kv))) kvs)"
| "encodeValue (ISlice vs) = JArray (map encodeValue vs)"

text \<open>
  The \<open>omitempty\<close> option of a field: the field is left out when its value is empty,
  which is \<open>0\<close> for a number, \<open>""\<close> for a string, \<open>nil\<close> for an interface value and
  length zero for a map.
\<close>

definition lenMap :: "gomap option \<Rightarrow> nat" where
  "lenMap m = (case m of None \<Rightarrow> 0 | Some kvs \<Rightarrow> length kvs)"

definition encodeMap :: "gomap option \<Rightarrow> json" where
  "encodeMap m = (case m of None \<Rightarrow> JNull | Some kvs \<Rightarrow> encodeValue (IMap kvs))"

definition supportedMap :: "gomap option \<Rightarrow> bool" where
  "supportedMap m = (case m of None \<Rightarrow> True | Some kvs \<Rightarrow> supported (IMap kvs))"

definition encodeFields :: "cwLogBody \<Rightarrow> (string \<times> json) list" where
  "encodeFields b =
     (if Name b = [] then [] else [(''name'', JString (Name b))]) @
     (if Body b = INil then [] else [(''body'', encodeValue (Body b))]) @
     (if SeverityNumber b = 0 then [] else [(''severity_number'', JInt (sint (SeverityNumber b)))]) @
     (if SeverityText b = [] then [] else [(''severity_text'', JString (SeverityText b))]) @
     (if DroppedAttributesCount b = 0 then []
      else [(''dropped_attributes_count'', JInt (uint (DroppedAttributesCount b)))]) @
     (if Flags b = 0 then [] else [(''flags'', JInt (uint (Flags b)))]) @
     (if TraceID b = [] then [] else [(''trace_id'', JString (TraceID b))]) @
     (if SpanID b = [] then [] else [(''span_id'', JString (SpanID b))]) @
     (if lenMap (Attributes b) = 0 then [] else [(''attributes'', encodeMap (Attributes b))]) @
     (if lenMap (Resource b) = 0 then [] else [(''resource'', encodeMap (Resource b))])"

definition Marshal :: "cwLogBody \<Rightarrow> error + json" where
  "Marshal b =
     (if supported (Body b) \<and> supportedMap (Attributes b) \<and> supportedMap (Resource b)
      then Inr (JObject (encodeFields b))
      else Inl UnsupportedValueError)"

subsection \<open>logToCWLog\<close>

record InputLogEvent =
  Timestamp :: "64 word"
  Message :: json

text \<open>
  \<open>int64(log.Timestamp()) / int64(time.Millisecond)\<close>: the conversion reads the 64
  bits as two's complement (\<open>sint\<close>), Go's \<open>/\<close> truncates towards zero (\<open>sdiv\<close>), and
  \<open>time.Millisecond\<close> is 1000000 nanoseconds.
\<close>

definition Millisecond :: int where
  "Millisecond = 1000000"

definition toMillis :: "64 word \<Rightarrow> 64 word" where
  "toMillis ts = word_of_int (sint ts sdiv Millisecond)"

definition logToCWLog :: "gomap option \<Rightarrow> LogRecord \<Rightarrow> error + InputLogEvent" where
  "logToCWLog resourceAttrs log =
     (let body = \<lparr>Name = logName log,
                  Body = attrValue (logBody log),
                  SeverityNumber = logSeverityNumber log,
                  SeverityText = logSeverityText log,
                  DroppedAttributesCount = logDroppedAttributesCount log,
                  Flags = logFlags log,
                  TraceID = [], SpanID = [], Attributes = None, Resource = None\<rparr>;
          body = (if \<not> IsEmpty (logTraceID log)
                  then body\<lparr>TraceID := HexString 16 (logTraceID log)\<rparr> else body);
          body = (if \<not> IsEmpty (logSpanID log)
                  then body\<lparr>SpanID := HexString 8 (logSpanID log)\<rparr> else body);
          body = body\<lparr>Attributes := attrsValue (logAttributes log)\<rparr>;
          body = body\<lparr>Resource := resourceAttrs\<rparr>
      in case Marshal body of
           Inl err \<Rightarrow> Inl err
         | Inr bodyJSON \<Rightarrow> Inr \<lparr>Timestamp = toMillis (logTimestamp log), Message = bodyJSON\<rparr>)"

subsection \<open>logsToCWLogs\<close>

datatype log_entry = LogInfo string | LogDebug string | LogError string

text \<open>
  The three nested loops, innermost first. Each carries the variables the loop body
  assigns: \<open>out\<close>, \<open>dropped\<close> and what the logger has been handed so far.
  \<open>logsStep\<close> is the body of the innermost loop, run for one record.
\<close>

definition logsStep ::
  "gomap option \<Rightarrow> LogRecord \<Rightarrow> InputLogEvent list \<times> nat \<times> log_entry list
     \<Rightarrow> InputLogEvent list \<times> nat \<times> log_entry list" where
  "logsStep resourceAttrs log acc =
     (case acc of
        (out, dropped, logger) \<Rightarrow>
          (case logToCWLog resourceAttrs log of
             Inl err \<Rightarrow>
               (out, dropped + 1, logger @ [LogDebug ''Failed to convert to CloudWatch Log''])
           | Inr event \<Rightarrow> (out @ [event], dropped, logger)))"

fun logsLoop ::
  "gomap option \<Rightarrow> LogRecord list \<Rightarrow> InputLogEvent list \<times> nat \<times> log_entry list
     \<Rightarrow> InputLogEvent list \<times> nat \<times> log_entry list" where
  "logsLoop resourceAttrs [] acc = acc"
| "logsLoop resourceAttrs (log # logs) acc =
     logsLoop resourceAttrs logs (logsStep resourceAttrs log acc)"

fun illsLoop ::
  "gomap option \<Rightarrow> InstrumentationLibraryLogs list \<Rightarrow> InputLogEvent list \<times> nat \<times> log_entry list
     \<Rightarrow> InputLogEvent list \<times> nat \<times> log_entry list" where
  "illsLoop resourceAttrs [] acc = acc"
| "illsLoop resourceAttrs (ils # ills) acc =
     illsLoop resourceAttrs ills (logsLoop resourceAttrs (Logs ils) acc)"

fun rlsLoop ::
  "ResourceLogs list \<Rightarrow> InputLogEvent list \<times> nat \<times> log_entry list
     \<Rightarrow> InputLogEvent list \<times> nat \<times> log_entry list" where
  "rlsLoop [] acc = acc"
| "rlsLoop (rl # rls) acc =
     rlsLoop rls
       (illsLoop (attrsValue (ResourceAttributes rl)) (InstrumentationLibraryLogs rl) acc)"

definition logsToCWLogs ::
  "log_entry list \<Rightarrow> Logs \<Rightarrow> (InputLogEvent list \<times> nat) \<times> log_entry list" where
  "logsToCWLogs logger ld =
     (let n = length ld
      in if n = 0 then (([], 0), logger)
         else (case rlsLoop ld ([], 0, logger) of
                 (out, dropped, logger') \<Rightarrow> ((out, dropped), logger')))"

subsection \<open>The Pusher collaborator and the exporter's state\<close>

record Event =
  InputLogEvent :: InputLogEvent
  GeneratedTime :: int

text \<open>
  \<open>cwlogs.Pusher\<close> is an interface whose implementation, like the clock, lies outside
  exporter.go. Both are parameters: \<open>'p\<close> is the state a Pusher object holds,
  \<open>NewPusher\<close> builds one for a group, a stream and a retry count (the client and the
  logger are the exporter's own, fixed at construction), \<open>AddLogEntry\<close> and
  \<open>ForceFlush\<close> return their \<open>error\<close> (\<open>None\<close> is \<open>nil\<close>) and the object's new state,
  and \<open>timeNow k\<close> is what the \<open>k\<close>-th reading of \<open>time.Now()\<close> gives.
\<close>

record 'p env =
  NewPusher :: "string \<Rightarrow> string \<Rightarrow> int \<Rightarrow> 'p"
  AddLogEntry :: "'p \<Rightarrow> Event \<Rightarrow> error option \<times> 'p"
  ForceFlush :: "'p \<Rightarrow> error option \<times> 'p"
  timeNow :: "nat \<Rightarrow> int"

text \<open>
  A Pusher is a Go pointer: a reference into a store of Pusher objects. A \<open>call\<close> is
  one call made on the collaborator: the constructor with the reference it returned,
  or a method with its receiver and the error it returned.
\<close>

type_synonym ref = nat

datatype call =
    CallNewPusher string string ref
  | CallAddLogEntry ref Event "error option"
  | CallForceFlush ref "error option"

text \<open>
  The exporter: the two destination names of its \<open>Config\<close>, \<open>retryCount\<close> and the
  map of maps \<open>groupStreamToPusherMap\<close>; with it the part of the process it acts on:
  the store of Pusher objects (\<open>nextRef\<close> is the first reference not yet handed out),
  the entries handed to \<open>logger\<close>, the calls on the collaborator and the number of
  clock readings so far. The mutex \<open>seqTokenMu\<close> orders concurrent callers and has no
  part in a single call, so it is not a field.
\<close>

record 'p exporter =
  LogGroupName :: string
  LogStreamName :: string
  retryCount :: int
  groupStreamToPusherMap :: "string \<Rightarrow> (string \<Rightarrow> ref option) option"
  pushers :: "ref \<Rightarrow> 'p"
  nextRef :: ref
  logger :: "log_entry list"
  calls :: "call list"
  ticks :: nat

definition logTo :: "log_entry \<Rightarrow> 'p exporter \<Rightarrow> 'p exporter" where
  "logTo entry e = e\<lparr>logger := logger e @ [entry]\<rparr>"

text \<open>
  Modelled from the spec: the constructor \<open>cwlogs.NewPusher\<close> is outside exporter.go.
  Each call of it gives a new object, here the next reference of the store, whose
  first state is the parameter's.
\<close>

definition callNewPusher ::
  "'p env \<Rightarrow> string \<Rightarrow> string \<Rightarrow> int \<Rightarrow> 'p exporter \<Rightarrow> ref \<times> 'p exporter" where
  "callNewPusher env logGroup logStream retry e =
     (let r = nextRef e
      in (r, e\<lparr>pushers := (pushers e)(r := NewPusher env logGroup logStream retry),
               nextRef := Suc r,
               calls := calls e @ [CallNewPusher logGroup logStream r]\<rparr>))"

definition callAddLogEntry ::
  "'p env \<Rightarrow> ref \<Rightarrow> Event \<Rightarrow> 'p exporter \<Rightarrow> error option \<times> 'p exporter" where
  "callAddLogEntry env r ev e =
     (case AddLogEntry env (pushers e r) ev of
        (err, p') \<Rightarrow>
          (err, e\<lparr>pushers := (pushers e)(r := p'), calls := calls e @ [CallAddLogEntry r ev err]\<rparr>))"

definition callForceFlush ::
  "'p env \<Rightarrow> ref \<Rightarrow> 'p exporter \<Rightarrow> error option \<times> 'p exporter" where
  "callForceFlush env r e =
     (case ForceFlush env (pushers e r) of
        (err, p') \<Rightarrow>
          (err, e\<lparr>pushers := (pushers e)(r := p'), calls := calls e @ [CallForceFlush r err]\<rparr>))"

definition timeNowCall :: "'p env \<Rightarrow> 'p exporter \<Rightarrow> int \<times> 'p exporter" where
  "timeNowCall env e = (timeNow env (ticks e), e\<lparr>ticks := Suc (ticks e)\<rparr>)"

text \<open>
  The state an exporter starts from (\<open>newCwLogsExporter\<close>): an empty map of maps,
  nothing logged, nothing called. The store's content is immaterial from \<open>nextRef\<close> on.
\<close>

definition newExporter :: "string \<Rightarrow> string \<Rightarrow> int \<Rightarrow> 'p \<Rightarrow> 'p exporter" where
  "newExporter logGroup logStream retry p0 =
     \<lparr>LogGroupName = logGroup, LogStreamName = logStream, retryCount = retry,
      groupStreamToPusherMap = (\<lambda>g. None), pushers = (\<lambda>r. p0), nextRef = 0,
      logger = [], calls = [], ticks = 0\<rparr>"

subsection \<open>getLogPusher\<close>

text \<open>
  The inner map is shared between the outer map and the local variable
  \<open>streamToPusherMap\<close>, so the assignment \<open>streamToPusherMap[logStream] = logPusher\<close>
  shows in the outer map's entry for \<open>logGroup\<close>.
\<close>

definition getLogPusher ::
  "'p env \<Rightarrow> string \<Rightarrow> string \<Rightarrow> 'p exporter \<Rightarrow> ref \<times> 'p exporter" where
  "getLogPusher env logGroup logStream e =
     (case (case groupStreamToPusherMap e logGroup of
              Some m \<Rightarrow> (m, e)
            | None \<Rightarrow>
                (\<lambda>s. None,
                 e\<lparr>groupStreamToPusherMap := (groupStreamToPusherMap e)(logGroup := Some (\<lambda>s. None))\<rparr>)) of
        (streamToPusherMap, e1) \<Rightarrow>
          (case streamToPusherMap logStream of
             Some logPusher \<Rightarrow> (logPusher, e1)
           | None \<Rightarrow>
               (case callNewPusher env logGroup logStream (retryCount e1) e1 of
                  (logPusher, e2) \<Rightarrow>
                    (logPusher,
                     e2\<lparr>groupStreamToPusherMap :=
                          (groupStreamToPusherMap e2)
                            (logGroup := Some (streamToPusherMap(logStream := Some logPusher)))\<rparr>))))"

subsection \<open>PushLogs and Shutdown\<close>

text \<open>
  The loop over \<open>logEvents\<close>. \<open>addLogEvent\<close> is its body, run for one event: an append
  that fails is logged and the loop goes on.
\<close>

definition addLogEvent ::
  "'p env \<Rightarrow> ref \<Rightarrow> InputLogEvent \<Rightarrow> 'p exporter \<Rightarrow> 'p exporter" where
  "addLogEvent env cwLogsPusher logEvent e =
     (case timeNowCall env e of
        (now, e1) \<Rightarrow>
          (let ev = \<lparr>InputLogEvent = logEvent, GeneratedTime = now\<rparr>;
               e2 = logTo (LogDebug ''Adding log event'') e1
           in case callAddLogEntry env cwLogsPusher ev e2 of
                (err, e3) \<Rightarrow>
                  (case err of None \<Rightarrow> e3 | Some x \<Rightarrow> logTo (LogError ''Failed '') e3)))"

fun addLogEvents ::
  "'p env \<Rightarrow> ref \<Rightarrow> InputLogEvent list \<Rightarrow> 'p exporter \<Rightarrow> 'p exporter" where
  "addLogEvents env cwLogsPusher [] e = e"
| "addLogEvents env cwLogsPusher (logEvent # rest) e =
     addLogEvents env cwLogsPusher rest (addLogEvent env cwLogsPusher logEvent e)"

definition PushLogs :: "'p env \<Rightarrow> Logs \<Rightarrow> 'p exporter \<Rightarrow> error option \<times> 'p exporter" where
  "PushLogs env ld e =
     (case getLogPusher env (LogGroupName e) (LogStreamName e) e of
        (cwLogsPusher, e1) \<Rightarrow>
          (case logsToCWLogs (logger e1) ld of
             ((logEvents, dropped), logger') \<Rightarrow>
               (let e2 = e1\<lparr>logger := logger'\<rparr>
                in if length logEvents = 0 then (None, e2)
                   else
                     (let e3 = logTo (LogInfo ''Putting log events'') e2;
                          e4 = addLogEvents env cwLogsPusher logEvents e3;
                          e5 = logTo (LogDebug ''Log events are successfully put'') e4
                      in case callForceFlush env cwLogsPusher e5 of
                           (flushErr, e6) \<Rightarrow>
                             (case flushErr of
                                Some err \<Rightarrow>
                                  (Some err,
                                   logTo (LogError ''Error force flushing logs. Skipping to next logPusher.'') e6)
                              | None \<Rightarrow> (None, e6))))))"

definition Shutdown :: "'p env \<Rightarrow> 'p exporter \<Rightarrow> error option \<times> 'p exporter" where
  "Shutdown env e =
     (case getLogPusher env (LogGroupName e) (LogStreamName e) e of
        (logPusher, e1) \<Rightarrow>
          (case callForceFlush env logPusher e1 of
             (err, e2) \<Rightarrow> (None, e2)))"

subsection \<open>Runs of an exporter\<close>

text \<open>
  What the host can do with an exporter over its lifetime, one call after the other;
  \<open>OpGetLogPusher\<close> stands for a resolution of any key.
\<close>

datatype op = OpPushLogs Logs | OpShutdown | OpGetLogPusher string string

fun step :: "'p env \<Rightarrow> op \<Rightarrow> 'p exporter \<Rightarrow> 'p exporter" where
  "step env (OpPushLogs ld) e = snd (PushLogs env ld e)"
| "step env OpShutdown e = snd (Shutdown env e)"
| "step env (OpGetLogPusher logGroup logStream) e = snd (getLogPusher env logGroup logStream e)"

definition run :: "'p env \<Rightarrow> op list \<Rightarrow> 'p exporter \<Rightarrow> 'p exporter" where
  "run env ops e = fold (step env) ops e"

subsection \<open>Notions used to state the properties\<close>

text \<open>The Pusher that the map of maps holds for a key, if any.\<close>

definition lookupPusher :: "'p exporter \<Rightarrow> string \<Rightarrow> string \<Rightarrow> ref option" where
  "lookupPusher e logGroup logStream =
     (case groupStreamToPusherMap e logGroup of None \<Rightarrow> None | Some m \<Rightarrow> m logStream)"

text \<open>Reading a sequence of calls: the constructions for a key, the appends, the flushes.\<close>

fun isNewPusherFor :: "string \<Rightarrow> string \<Rightarrow> call \<Rightarrow> bool" where
  "isNewPusherFor logGroup logStream (CallNewPusher g s r) = (g = logGroup \<and> s = logStream)"
| "isNewPusherFor logGroup logStream c = False"

fun appended :: "call list \<Rightarrow> (ref \<times> InputLogEvent) list" where
  "appended [] = []"
| "appended (CallAddLogEntry r ev err # cs) = (r, InputLogEvent ev) # appended cs"
| "appended (c # cs) = appended cs"

fun failedAppends :: "call list \<Rightarrow> nat" where
  "failedAppends [] = 0"
| "failedAppends (CallAddLogEntry r ev (Some err) # cs) = Suc (failedAppends cs)"
| "failedAppends (c # cs) = failedAppends cs"

fun flushed :: "call list \<Rightarrow> (ref \<times> error option) list" where
  "flushed [] = []"
| "flushed (CallForceFlush r err # cs) = (r, err) # flushed cs"
| "flushed (c # cs) = flushed cs"

text \<open>
  The records of a batch in the order of the three indices (resource group, then
  instrumentation scope, then record), each with the flattened attributes of its
  resource; the translation of one of them; the events of the records that translate
  and the number of those that do not.
\<close>

definition recordsOf :: "Logs \<Rightarrow> (gomap option \<times> LogRecord) list" where
  "recordsOf ld =
     concat (map (\<lambda>rl. map (Pair (attrsValue (ResourceAttributes rl)))
                          (concat (map Logs (InstrumentationLibraryLogs rl)))) ld)"

definition translate :: "gomap option \<times> LogRecord \<Rightarrow> InputLogEvent option" where
  "translate x = (case logToCWLog (fst x) (snd x) of Inl err \<Rightarrow> None | Inr event \<Rightarrow> Some event)"

definition translated :: "Logs \<Rightarrow> InputLogEvent list" where
  "translated ld = List.map_filter translate (recordsOf ld)"

definition failures :: "Logs \<Rightarrow> nat" where
  "failures ld = length (filter (\<lambda>x. translate x = None) (recordsOf ld))"

text \<open>A record with every field at its zero value, as \<open>pdata.NewLogRecord()\<close> gives it.\<close>

definition emptyRecord :: LogRecord where
  "emptyRecord =
     \<lparr>logName = [], logBody = AttributeValueTypeEmpty, logSeverityNumber = 0,
      logSeverityText = [], logDroppedAttributesCount = 0, logFlags = 0,
      logTraceID = 0, logSpanID = 0, logAttributes = [], logTimestamp = 0\<rparr>"

text \<open>
  The body that \<open>logToCWLog\<close> hands to \<open>json.Marshal\<close>, and the members expected in the
  message, read off the record: a body is absent when it is the empty variant or one
  \<open>attrValue\<close> does not know.
\<close>

definition bodyOf :: "gomap option \<Rightarrow> LogRecord \<Rightarrow> cwLogBody" where
  "bodyOf resourceAttrs log =
     \<lparr>Name = logName log, Body = attrValue (logBody log),
      SeverityNumber = logSeverityNumber log, SeverityText = logSeverityText log,
      DroppedAttributesCount = logDroppedAttributesCount log, Flags = logFlags log,
      TraceID = HexString 16 (logTraceID log), SpanID = HexString 8 (logSpanID log),
      Attributes = attrsValue (logAttributes log), Resource = resourceAttrs\<rparr>"

fun bodyAbsent :: "AttributeValue \<Rightarrow> bool" where
  "bodyAbsent AttributeValueTypeEmpty = True"
| "bodyAbsent (AttributeValueTypeBytes bs) = True"
| "bodyAbsent v = False"

definition field :: "bool \<Rightarrow> string \<Rightarrow> string list" where
  "field present name = (if present then [name] else [])"

definition expectedFields :: "gomap option \<Rightarrow> LogRecord \<Rightarrow> string list" where
  "expectedFields resourceAttrs log =
     field (logName log \<noteq> []) ''name'' @
     field (\<not> bodyAbsent (logBody log)) ''body'' @
     field (logSeverityNumber log \<noteq> 0) ''severity_number'' @
     field (logSeverityText log \<noteq> []) ''severity_text'' @
     field (logDroppedAttributesCount log \<noteq> 0) ''dropped_attributes_count'' @
     field (logFlags log \<noteq> 0) ''flags'' @
     field (logTraceID log \<noteq> 0) ''trace_id'' @
     field (logSpanID log \<noteq> 0) ''span_id'' @
     field (logAttributes log \<noteq> []) ''attributes'' @
     field (lenMap resourceAttrs \<noteq> 0) ''resource''"

text \<open>A JSON value that is null, zero or empty.\<close>

fun isZero :: "json \<Rightarrow> bool" where
  "isZero JNull = True"
| "isZero (JBool b) = (\<not> b)"
| "isZero (JInt i) = (i = 0)"
| "isZero (JFloat m e) = (m = 0)"
| "isZero (JString s) = (s = [])"
| "isZero (JArray vs) = (vs = [])"
| "isZero (JObject kvs) = (kvs = [])"

text \<open>
  The entries that a sequence of appends leaves with the logger: one at debug level
  for every append, and an error after each append that failed.
\<close>

fun appendLog :: "call list \<Rightarrow> log_entry list" where
  "appendLog [] = []"
| "appendLog (CallAddLogEntry r ev None # cs) = LogDebug ''Adding log event'' # appendLog cs"
| "appendLog (CallAddLogEntry r ev (Some err) # cs) =
     LogDebug ''Adding log event'' # LogError ''Failed '' # appendLog cs"
| "appendLog (c # cs) = appendLog cs"

fun isNewPusher :: "call \<Rightarrow> bool" where
  "isNewPusher (CallNewPusher g s r) = True"
| "isNewPusher c = False"

text \<open>
  What an operation that takes the state \<open>e\<close> to \<open>e'\<close> called on the collaborator and
  handed to the logger.
\<close>

definition callsDuring :: "'p exporter \<Rightarrow> 'p exporter \<Rightarrow> call list" where
  "callsDuring e e' = drop (length (calls e)) (calls e')"

definition loggedDuring :: "'p exporter \<Rightarrow> 'p exporter \<Rightarrow> log_entry list" where
  "loggedDuring e e' = drop (length (logger e)) (logger e')"

abbreviation droppedEntry :: log_entry where
  "droppedEntry \<equiv> LogDebug ''Failed to convert to CloudWatch Log''"

text \<open>
  The invariant of the registry: the calls hold one construction for a key that the map
  of maps has a Pusher for, and none for any other key.
\<close>

definition constructedOnce :: "'p exporter \<Rightarrow> bool" where
  "constructedOnce e =
     (\<forall>g s. length (filter (isNewPusherFor g s) (calls e)) =
              (case lookupPusher e g s of None \<Rightarrow> 0 | Some r \<Rightarrow> 1))"

text \<open>
  What the Pusher itself goes through. \<open>eventsAt\<close> gives the events as \<open>PushLogs\<close> hands
  them over, each stamped with the clock reading of its turn; \<open>handed\<close> is the state
  of a Pusher after \<open>AddLogEntry\<close> on each of them in order; \<open>addCalls\<close> lists these
  calls with what \<open>AddLogEntry\<close> returned to each.
\<close>

fun eventsAt :: "'p env \<Rightarrow> nat \<Rightarrow> InputLogEvent list \<Rightarrow> Event list" where
  "eventsAt env t [] = []"
| "eventsAt env t (logEvent # rest) =
     \<lparr>InputLogEvent = logEvent, GeneratedTime = timeNow env t\<rparr> # eventsAt env (Suc t) rest"

fun handed :: "'p env \<Rightarrow> 'p \<Rightarrow> Event list \<Rightarrow> 'p" where
  "handed env p [] = p"
| "handed env p (ev # evs) = handed env (snd (AddLogEntry env p ev)) evs"

fun addCalls :: "'p env \<Rightarrow> ref \<Rightarrow> 'p \<Rightarrow> Event list \<Rightarrow> call list" where
  "addCalls env r p [] = []"
| "addCalls env r p (ev # evs) =
     CallAddLogEntry r ev (fst (AddLogEntry env p ev)) #
     addCalls env r (snd (AddLogEntry env p ev)) evs"

text \<open>
  The Pusher that \<open>PushLogs\<close> and \<open>Shutdown\<close> resolve for the configured group and
  stream, and the state it is in once resolved: the state it had, or the one the
  constructor gave it.
\<close>

definition configuredPusher :: "'p env \<Rightarrow> 'p exporter \<Rightarrow> ref" where
  "configuredPusher env e = fst (getLogPusher env (LogGroupName e) (LogStreamName e) e)"

definition configuredState :: "'p env \<Rightarrow> 'p exporter \<Rightarrow> 'p" where
  "configuredState env e =
     pushers (snd (getLogPusher env (LogGroupName e) (LogStreamName e) e)) (configuredPusher env e)"

definition constructionOf :: "'p exporter \<Rightarrow> call list" where
  "constructionOf e =
     (if lookupPusher e (LogGroupName e) (LogStreamName e) = None
      then [CallNewPusher (LogGroupName e) (LogStreamName e) (nextRef e)] else [])"

subsection \<open>Concrete collaborators and batches\<close>

text \<open>
  Two Pushers whose state counts the entries they hold. The first rejects the entry
  it is handed while it is empty and flushes without error; the second accepts every
  entry and fails every flush.
\<close>

definition countingEnv :: "nat env" where
  "countingEnv =
     \<lparr>NewPusher = (\<lambda>g s n. 0),
      AddLogEntry = (\<lambda>p ev. (if p = 0 then Some (PusherError ''rejected'') else None, Suc p)),
      ForceFlush = (\<lambda>p. (None, 0)),
      timeNow = (\<lambda>k. int k)\<rparr>"

definition failingEnv :: "nat env" where
  "failingEnv =
     \<lparr>NewPusher = (\<lambda>g s n. 0),
      AddLogEntry = (\<lambda>p ev. (None, Suc p)),
      ForceFlush = (\<lambda>p. (Some (PusherError ''flush failed''), p)),
      timeNow = (\<lambda>k. int k)\<rparr>"

text \<open>
  A Pusher that keeps what it is handed: its state is the entries it holds and the
  batches it has flushed. A flush with no entry held returns an error, and is recorded
  all the same.
\<close>

definition recordingEnv :: "(Event list \<times> Event list list) env" where
  "recordingEnv =
     \<lparr>NewPusher = (\<lambda>g s n. ([], [])),
      AddLogEntry = (\<lambda>p ev. (None, (fst p @ [ev], snd p))),
      ForceFlush = (\<lambda>p. (if fst p = [] then Some (PusherError ''nothing to flush'') else None,
                          ([], snd p @ [fst p]))),
      timeNow = (\<lambda>k. int k)\<rparr>"

text \<open>
  A resource group from its attributes and the records of its scopes; a batch of one
  group with one scope; a record that does not translate (its body is a NaN); a
  record stamped with a number of milliseconds, and its event.
\<close>

definition groupOf :: "AttributeMap \<Rightarrow> LogRecord list list \<Rightarrow> ResourceLogs" where
  "groupOf attrs scopes =
     \<lparr>ResourceAttributes = attrs,
      InstrumentationLibraryLogs = map (\<lambda>logs. \<lparr>Logs = logs\<rparr>) scopes\<rparr>"

definition batchOf :: "LogRecord list \<Rightarrow> Logs" where
  "batchOf logs = [groupOf [] [logs]]"

definition nanRecord :: LogRecord where
  "nanRecord = emptyRecord\<lparr>logBody := AttributeValueTypeDouble NaN\<rparr>"

definition stamped :: "64 word \<Rightarrow> LogRecord" where
  "stamped ms = emptyRecord\<lparr>logTimestamp := 1000000 * ms\<rparr>"

definition stampedEvent :: "64 word \<Rightarrow> InputLogEvent" where
  "stampedEvent ms = \<lparr>Timestamp = ms, Message = JObject []\<rparr>"

section \<open>Properties\<close>

subsection \<open>The attribute flattener\<close>

lemma fold_update_nonempty:
  "acc \<noteq> [] \<Longrightarrow> fold (\<lambda>kv out. AList.update (fst kv) (f (snd kv)) out) kvs acc \<noteq> []"
  by (induction kvs arbitrary: acc) simp_all

lemma lenMap_attrsValue: "(lenMap (attrsValue attrs) = 0) = (attrs = [])"
proof (cases attrs)
  case Nil
  then show ?thesis by (simp add: attrsValue_def lenMap_def)
next
  case (Cons kv kvs)
  then show ?thesis
    using fold_update_nonempty [OF AList.update_nonempty, of attrValue kvs "fst kv" "attrValue (snd kv)" "[]"]
    by (simp add: attrsValue_def lenMap_def)
qed

lemma attrValue_INil: "(attrValue v = INil) = bodyAbsent v"
  by (cases v) simp_all

text \<open>
  C8. \<open>attrValue\<close> is a total function on attribute values (its recursion through maps
  and arrays terminates, and its result type has no error): every variant is given
  its value here, scalars themselves, an array the sequence of its elements' values
  in the same order and of the same length, the empty array the empty sequence, and
  the empty variant and the variant outside the switch \<open>nil\<close>.
\<close>

theorem attrValue_total:
  "attrValue v =
     (case v of
        AttributeValueTypeEmpty \<Rightarrow> INil
      | AttributeValueTypeString s \<Rightarrow> IString s
      | AttributeValueTypeInt i \<Rightarrow> IInt64 i
      | AttributeValueTypeDouble d \<Rightarrow> IFloat64 d
      | AttributeValueTypeBool b \<Rightarrow> IBool b
      | AttributeValueTypeMap kvs \<Rightarrow>
          IMap (fold (\<lambda>kv values. AList.update (fst kv) (attrValue (snd kv)) values) kvs [])
      | AttributeValueTypeArray vs \<Rightarrow> ISlice (map attrValue vs)
      | AttributeValueTypeBytes bs \<Rightarrow> INil)
   \<and> attrValue (AttributeValueTypeArray []) = ISlice []
   \<and> (\<exists>values. attrValue (AttributeValueTypeArray vs) = ISlice values
         \<and> length values = length vs
         \<and> (\<forall>i<length vs. values ! i = attrValue (vs ! i)))"
  by (cases v) simp_all

theorem attrValue_total_witness:
  "attrValue (AttributeValueTypeArray
      [AttributeValueTypeInt 7,
       AttributeValueTypeMap [(''k'', AttributeValueTypeArray [AttributeValueTypeBytes [1]])],
       AttributeValueTypeString ''s''])
   = ISlice [IInt64 7, IMap [(''k'', ISlice [INil])], IString ''s'']"
  using attrValue_total
    [of "AttributeValueTypeArray
      [AttributeValueTypeInt 7,
       AttributeValueTypeMap [(''k'', AttributeValueTypeArray [AttributeValueTypeBytes [1]])],
       AttributeValueTypeString ''s'']" "[]"]
  by simp

subsection \<open>The record translator\<close>

lemma sdiv_Millisecond:
  "(a::int) sdiv Millisecond = (if 0 \<le> a then a div 1000000 else - ((- a) div 1000000))"
  by (auto simp: signed_divide_int_def Millisecond_def sgn_if)

lemma sint_word_of_int_64:
  "- (2 ^ 63) \<le> x \<Longrightarrow> x < 2 ^ 63 \<Longrightarrow> sint (word_of_int x :: 64 word) = x"
  by (simp add: sint_sbintrunc' signed_take_bit_int_eq_self)

lemma sint_toMillis: "sint (toMillis ts) = sint ts sdiv Millisecond"
proof -
  have r: "- (2 ^ 63) \<le> sint ts" "sint ts < 2 ^ 63"
    using sint_ge [of ts] sint_lt [of ts] by simp_all
  have "- (2 ^ 63) \<le> sint ts sdiv Millisecond \<and> sint ts sdiv Millisecond < 2 ^ 63"
    unfolding sdiv_Millisecond using r by (auto simp: Millisecond_def)
  then show ?thesis
    unfolding toMillis_def by (simp add: sint_word_of_int_64)
qed

lemma sint_eq_uint_64:
  fixes ts :: "64 word"
  assumes "uint ts < 2 ^ 63"
  shows "sint ts = uint ts"
proof -
  have "- (2 ^ 63) \<le> uint ts"
    by (rule order_trans [OF _ uint_ge_0]) simp
  then have "signed_take_bit 63 (uint ts) = uint ts"
    using assms by (rule signed_take_bit_int_eq_self)
  then show ?thesis
    by (simp add: sint_uint)
qed

lemma toMillis_small:
  assumes "uint ts < 2 ^ 63"
  shows "sint (toMillis ts) = uint ts div 1000000"
  using uint_ge_0 [of ts] by (simp add: sint_toMillis sdiv_Millisecond sint_eq_uint_64 [OF assms])

lemma EncodeToString_nonempty: "0 < n \<Longrightarrow> EncodeToString n w \<noteq> []"
  by (simp add: EncodeToString_def)

lemma HexString_empty: "0 < n \<Longrightarrow> (HexString n w = []) = (w = 0)"
  by (simp add: HexString_def IsEmpty_def EncodeToString_nonempty)

lemma logToCWLog_bodyOf:
  "logToCWLog resourceAttrs log =
     (case Marshal (bodyOf resourceAttrs log) of
        Inl err \<Rightarrow> Inl err
      | Inr bodyJSON \<Rightarrow> Inr \<lparr>Timestamp = toMillis (logTimestamp log), Message = bodyJSON\<rparr>)"
  by (simp add: logToCWLog_def bodyOf_def Let_def HexString_def)

lemma logToCWLog_Inr:
  assumes "logToCWLog resourceAttrs log = Inr event"
  shows "Timestamp event = toMillis (logTimestamp log)"
    and "Message event = JObject (encodeFields (bodyOf resourceAttrs log))"
    and "supported (attrValue (logBody log))"
  using assms
  by (auto simp: logToCWLog_bodyOf Marshal_def bodyOf_def split: if_splits)

lemma logToCWLog_emptyRecord:
  "logToCWLog None (emptyRecord\<lparr>logTimestamp := ts\<rparr>)
     = Inr \<lparr>Timestamp = toMillis ts, Message = JObject []\<rparr>"
  by (simp add: logToCWLog_def emptyRecord_def Marshal_def encodeFields_def IsEmpty_def
      attrsValue_def supportedMap_def lenMap_def)

text \<open>
  C5, as the claim states it, fails on a timestamp of \<open>2 ^ 63\<close> nanoseconds or more: the
  conversion to \<open>int64\<close> makes it negative. At \<open>2 ^ 63\<close> the event's timestamp is
  \<open>- 9223372036854\<close> milliseconds, and the quotient of the record's timestamp by one
  million is \<open>9223372036854\<close>.
\<close>

theorem logToCWLog_timestamp_counterexample:
  "logToCWLog None (emptyRecord\<lparr>logTimestamp := 2 ^ 63\<rparr>)
     = Inr \<lparr>Timestamp = 18446734850337514762, Message = JObject []\<rparr>
   \<and> sint (18446734850337514762 :: 64 word) = - 9223372036854
   \<and> uint ((2 :: 64 word) ^ 63) div 1000000 = 9223372036854"
  by (simp add: logToCWLog_emptyRecord toMillis_def Millisecond_def signed_divide_int_def)

text \<open>
  C5, amended. The timestamp of the event of a record that translates is the record's
  timestamp, read as a signed 64-bit number, divided by one million with truncation
  towards zero; for a record timestamp below \<open>2 ^ 63\<close> nanoseconds that is the
  timestamp integer-divided by one million, truncating and not rounding.
\<close>

theorem logToCWLog_timestamp:
  assumes "logToCWLog resourceAttrs log = Inr event"
  shows "sint (Timestamp event) = sint (logTimestamp log) sdiv 1000000
         \<and> (uint (logTimestamp log) < 2 ^ 63
              \<longrightarrow> sint (Timestamp event) = uint (logTimestamp log) div 1000000)"
proof -
  have t: "Timestamp event = toMillis (logTimestamp log)"
    by (rule logToCWLog_Inr(1) [OF assms])
  have g: "sint (Timestamp event) = sint (logTimestamp log) sdiv 1000000"
    using sint_toMillis [of "logTimestamp log"] by (simp add: t Millisecond_def)
  have s: "sint (Timestamp event) = uint (logTimestamp log) div 1000000"
    if "uint (logTimestamp log) < 2 ^ 63"
    unfolding t using that by (rule toMillis_small)
  show ?thesis
    using g s by blast
qed

theorem logToCWLog_timestamp_witness:
  "logToCWLog None (emptyRecord\<lparr>logTimestamp := 1500000\<rparr>)
     = Inr \<lparr>Timestamp = 1, Message = JObject []\<rparr>
   \<and> logToCWLog None (emptyRecord\<lparr>logTimestamp := 1999999\<rparr>)
     = Inr \<lparr>Timestamp = 1, Message = JObject []\<rparr>
   \<and> sint (1 :: 64 word) = uint (1500000 :: 64 word) div 1000000
   \<and> sint (1 :: 64 word) = uint (1999999 :: 64 word) div 1000000"
proof -
  have a: "logToCWLog None (emptyRecord\<lparr>logTimestamp := 1500000\<rparr>)
             = Inr \<lparr>Timestamp = 1, Message = JObject []\<rparr>"
    by (simp add: logToCWLog_emptyRecord toMillis_def Millisecond_def signed_divide_int_def)
  have b: "logToCWLog None (emptyRecord\<lparr>logTimestamp := 1999999\<rparr>)
             = Inr \<lparr>Timestamp = 1, Message = JObject []\<rparr>"
    by (simp add: logToCWLog_emptyRecord toMillis_def Millisecond_def signed_divide_int_def)
  show ?thesis
    using a b logToCWLog_timestamp [OF a] logToCWLog_timestamp [OF b]
    by (simp add: emptyRecord_def)
qed

lemma names_encodeFields:
  "map fst (encodeFields (bodyOf resourceAttrs log)) = expectedFields resourceAttrs log"
  by (simp add: encodeFields_def expectedFields_def field_def bodyOf_def
      HexString_empty lenMap_attrsValue attrValue_INil)

lemma encodeValue_JNull: "supported v \<Longrightarrow> (encodeValue v = JNull) = (v = INil)"
  by (cases v) (auto split: float64.splits)

lemma encodeMap_nonzero: "lenMap m \<noteq> 0 \<Longrightarrow> \<not> isZero (encodeMap m) \<and> encodeMap m \<noteq> JNull"
  by (cases m) (auto simp: lenMap_def encodeMap_def)

lemma values_encodeFields:
  assumes "supported (Body b)"
  shows "list_all (\<lambda>kv. snd kv \<noteq> JNull \<and> (fst kv \<noteq> ''body'' \<longrightarrow> \<not> isZero (snd kv)))
           (encodeFields b)"
  using assms
  by (simp add: encodeFields_def encodeValue_JNull encodeMap_nonzero signed_eq_0_iff uint_0_iff)

text \<open>
  C3, as the claim states it, fails on the body: \<open>omitempty\<close> on a field of type
  \<open>interface{}\<close> leaves out only \<open>nil\<close>, so a record whose body is the integer \<open>0\<close> has
  a member \<open>body\<close> in its message, and its value is zero.
\<close>

theorem logToCWLog_fields_counterexample:
  "logToCWLog None (emptyRecord\<lparr>logBody := AttributeValueTypeInt 0\<rparr>)
     = Inr \<lparr>Timestamp = 0, Message = JObject [(''body'', JInt 0)]\<rparr>
   \<and> isZero (JInt 0)"
  by (simp add: logToCWLog_def emptyRecord_def Marshal_def encodeFields_def IsEmpty_def
      attrsValue_def supportedMap_def lenMap_def toMillis_def Millisecond_def)

text \<open>
  C3, amended. The message of a record that translates is an object whose members are
  exactly these: \<open>name\<close>, \<open>severity_text\<close> when the string is not
  empty; \<open>severity_number\<close>, \<open>dropped_attributes_count\<close>, \<open>flags\<close> when the number is
  not zero; \<open>trace_id\<close>, \<open>span_id\<close> when the identifier is not empty; \<open>attributes\<close>,
  \<open>resource\<close> when the collection has an entry; and \<open>body\<close> when the record's body is
  neither the empty variant nor an unrecognised one, whatever its value. No member is
  null, and no member other than \<open>body\<close> is zero or empty.
\<close>

theorem logToCWLog_fields:
  assumes "logToCWLog resourceAttrs log = Inr event"
  shows "\<exists>fields. Message event = JObject fields
           \<and> map fst fields = expectedFields resourceAttrs log
           \<and> list_all (\<lambda>kv. snd kv \<noteq> JNull \<and> (fst kv \<noteq> ''body'' \<longrightarrow> \<not> isZero (snd kv))) fields"
proof -
  let ?b = "bodyOf resourceAttrs log"
  have "supported (Body ?b)"
    using logToCWLog_Inr(3) [OF assms] by (simp add: bodyOf_def)
  then have "list_all (\<lambda>kv. snd kv \<noteq> JNull \<and> (fst kv \<noteq> ''body'' \<longrightarrow> \<not> isZero (snd kv)))
               (encodeFields ?b)"
    by (rule values_encodeFields)
  then show ?thesis
    using logToCWLog_Inr(2) [OF assms] names_encodeFields by blast
qed

theorem logToCWLog_fields_witness:
  "logToCWLog None
     (emptyRecord\<lparr>logName := ''n'', logBody := AttributeValueTypeBool False, logSpanID := 255\<rparr>)
     = Inr \<lparr>Timestamp = 0,
            Message = JObject [(''name'', JString ''n''), (''body'', JBool False),
                               (''span_id'', JString ''00000000000000ff'')]\<rparr>
   \<and> expectedFields None
       (emptyRecord\<lparr>logName := ''n'', logBody := AttributeValueTypeBool False, logSpanID := 255\<rparr>)
     = [''name'', ''body'', ''span_id'']"
proof -
  have a: "logToCWLog None
      (emptyRecord\<lparr>logName := ''n'', logBody := AttributeValueTypeBool False, logSpanID := 255\<rparr>)
     = Inr \<lparr>Timestamp = 0,
            Message = JObject [(''name'', JString ''n''), (''body'', JBool False),
                               (''span_id'', JString ''00000000000000ff'')]\<rparr>"
    by (simp add: logToCWLog_def emptyRecord_def Marshal_def encodeFields_def IsEmpty_def
        attrsValue_def supportedMap_def lenMap_def toMillis_def Millisecond_def
        HexString_def EncodeToString_def hexdigit_def upt_rec drop_bit_eq_div)
  show ?thesis
    using a logToCWLog_fields [OF a] by auto
qed

subsection \<open>The loops of logsToCWLogs\<close>

lemma logsLoop_eq:
  "logsLoop res logs (out, dropped, lg) =
     (out @ List.map_filter translate (map (Pair res) logs),
      dropped + length (filter (\<lambda>x. translate x = None) (map (Pair res) logs)),
      lg @ replicate (length (filter (\<lambda>x. translate x = None) (map (Pair res) logs))) droppedEntry)"
proof (induction logs arbitrary: out dropped lg)
  case Nil
  then show ?case by simp
next
  case (Cons log logs)
  show ?case
  proof (cases "logToCWLog res log")
    case (Inl err)
    then show ?thesis
      by (simp add: Cons.IH logsStep_def translate_def replicate_app_Cons_same)
  next
    case (Inr event)
    then show ?thesis
      by (simp add: Cons.IH logsStep_def translate_def)
  qed
qed

lemma map_filter_append: "List.map_filter f (xs @ ys) = List.map_filter f xs @ List.map_filter f ys"
  by (simp add: List.map_filter_def)

lemma map_filter_concat: "List.map_filter f (concat xss) = concat (map (List.map_filter f) xss)"
  by (induction xss) (simp_all add: map_filter_append)

lemma illsLoop_eq:
  "illsLoop res ills (out, dropped, lg) =
     (out @ List.map_filter translate (map (Pair res) (concat (map Logs ills))),
      dropped + length (filter (\<lambda>x. translate x = None) (map (Pair res) (concat (map Logs ills)))),
      lg @ replicate (length (filter (\<lambda>x. translate x = None) (map (Pair res) (concat (map Logs ills))))) droppedEntry)"
proof (induction ills arbitrary: out dropped lg)
  case Nil
  then show ?case by simp
next
  case (Cons ils ills)
  show ?case
    by (simp add: logsLoop_eq Cons.IH map_filter_append replicate_add)
qed

lemma rlsLoop_eq:
  "rlsLoop rls (out, dropped, lg) =
     (out @ translated rls, dropped + failures rls, lg @ replicate (failures rls) droppedEntry)"
proof (induction rls arbitrary: out dropped lg)
  case Nil
  then show ?case by (simp add: translated_def failures_def recordsOf_def)
next
  case (Cons rl rls)
  have t: "translated (rl # rls) =
      List.map_filter translate (map (Pair (attrsValue (ResourceAttributes rl)))
         (concat (map Logs (InstrumentationLibraryLogs rl)))) @ translated rls"
    by (simp add: translated_def recordsOf_def map_filter_append)
  have f: "failures (rl # rls) =
      length (filter (\<lambda>x. translate x = None) (map (Pair (attrsValue (ResourceAttributes rl)))
         (concat (map Logs (InstrumentationLibraryLogs rl))))) + failures rls"
    by (simp add: failures_def recordsOf_def)
  show ?case
    by (simp add: illsLoop_eq Cons.IH t f replicate_add)
qed

lemma logsToCWLogs_eq:
  "logsToCWLogs lg ld = ((translated ld, failures ld), lg @ replicate (failures ld) droppedEntry)"
proof (cases ld)
  case Nil
  then show ?thesis
    by (simp add: logsToCWLogs_def translated_def failures_def recordsOf_def)
next
  case (Cons rl rls)
  then show ?thesis
    by (simp add: logsToCWLogs_def rlsLoop_eq)
qed

lemma translated_failures: "length (translated ld) + failures ld = length (recordsOf ld)"
  unfolding translated_def failures_def List.map_filter_def
  using sum_length_filter_compl [of "\<lambda>x. translate x \<noteq> None" "recordsOf ld"]
  by (simp add: o_def) 

lemma map_filter_empty_iff: "(List.map_filter f xs = []) = list_all (\<lambda>x. f x = None) xs"
  by (induction xs) (simp_all split: option.splits)

lemma translated_empty_iff:
  "(translated ld = []) = list_all (\<lambda>x. translate x = None) (recordsOf ld)"
  unfolding translated_def by (rule map_filter_empty_iff)

subsection \<open>The registry\<close>

lemma getLogPusher_hit:
  "lookupPusher e g s = Some r \<Longrightarrow> getLogPusher env g s e = (r, e)"
  by (auto simp: getLogPusher_def lookupPusher_def split: option.splits)

lemma getLogPusher_fst:
  "fst (getLogPusher env g s e) = (case lookupPusher e g s of Some r \<Rightarrow> r | None \<Rightarrow> nextRef e)"
  by (auto simp: getLogPusher_def lookupPusher_def callNewPusher_def Let_def split: option.splits)

lemma getLogPusher_lookup:
  "lookupPusher (snd (getLogPusher env g s e)) g' s' =
     (if g' = g \<and> s' = s then Some (fst (getLogPusher env g s e)) else lookupPusher e g' s')"
  by (auto simp: getLogPusher_def lookupPusher_def callNewPusher_def Let_def split: option.splits)

lemma getLogPusher_calls:
  "calls (snd (getLogPusher env g s e)) =
     calls e @ (if lookupPusher e g s = None then [CallNewPusher g s (nextRef e)] else [])"
  by (auto simp: getLogPusher_def lookupPusher_def callNewPusher_def Let_def split: option.splits)

lemma getLogPusher_pushers:
  "r \<noteq> fst (getLogPusher env g s e) \<Longrightarrow> pushers (snd (getLogPusher env g s e)) r = pushers e r"
  by (auto simp: getLogPusher_def lookupPusher_def callNewPusher_def Let_def split: option.splits)

lemma getLogPusher_frame [simp]:
  "logger (snd (getLogPusher env g s e)) = logger e"
  "ticks (snd (getLogPusher env g s e)) = ticks e"
  "LogGroupName (snd (getLogPusher env g s e)) = LogGroupName e"
  "LogStreamName (snd (getLogPusher env g s e)) = LogStreamName e"
  "retryCount (snd (getLogPusher env g s e)) = retryCount e"
  by (auto simp: getLogPusher_def callNewPusher_def Let_def split: option.splits)

lemma getLogPusher_pushers_old:
  "r < nextRef e \<Longrightarrow> pushers (snd (getLogPusher env g s e)) r = pushers e r"
  by (auto simp: getLogPusher_def lookupPusher_def callNewPusher_def Let_def split: option.splits)

lemma getLogPusher_again:
  "lookupPusher (snd (getLogPusher env g s e)) g s = Some (fst (getLogPusher env g s e))"
  by (simp add: getLogPusher_lookup)

subsection \<open>Sequences of calls\<close>

lemma appended_append [simp]: "appended (xs @ ys) = appended xs @ appended ys"
  by (induction xs rule: appended.induct) simp_all

lemma flushed_append [simp]: "flushed (xs @ ys) = flushed xs @ flushed ys"
  by (induction xs rule: flushed.induct) simp_all

lemma failedAppends_append [simp]: "failedAppends (xs @ ys) = failedAppends xs + failedAppends ys"
  by (induction xs rule: failedAppends.induct) simp_all


lemma no_new_for: "filter isNewPusher cs = [] \<Longrightarrow> filter (isNewPusherFor g s) cs = []"
proof (induction cs)
  case Nil
  show ?case by simp
next
  case (Cons c cs)
  then show ?case by (cases c) (simp_all split: if_splits)
qed

subsection \<open>The effect of PushLogs and Shutdown\<close>

lemma lookupPusher_cong:
  "groupStreamToPusherMap e' = groupStreamToPusherMap e \<Longrightarrow> lookupPusher e' = lookupPusher e"
  by (simp add: lookupPusher_def fun_eq_iff)

lemma addLogEvent_frame [simp]:
  "groupStreamToPusherMap (addLogEvent env r ev e) = groupStreamToPusherMap e"
  "nextRef (addLogEvent env r ev e) = nextRef e"
  "LogGroupName (addLogEvent env r ev e) = LogGroupName e"
  "LogStreamName (addLogEvent env r ev e) = LogStreamName e"
  "retryCount (addLogEvent env r ev e) = retryCount e"
  by (auto simp: addLogEvent_def timeNowCall_def callAddLogEntry_def logTo_def Let_def
      split: prod.splits option.splits)

lemma addLogEvent_pushers:
  "r' \<noteq> r \<Longrightarrow> pushers (addLogEvent env r ev e) r' = pushers e r'"
  by (auto simp: addLogEvent_def timeNowCall_def callAddLogEntry_def logTo_def Let_def
      split: prod.splits option.splits)

lemma addLogEvent_calls:
  "\<exists>err. calls (addLogEvent env r ev e) =
            calls e @ [CallAddLogEntry r \<lparr>InputLogEvent = ev, GeneratedTime = timeNow env (ticks e)\<rparr> err]
        \<and> logger (addLogEvent env r ev e) =
            logger e @ appendLog [CallAddLogEntry r \<lparr>InputLogEvent = ev, GeneratedTime = timeNow env (ticks e)\<rparr> err]"
  by (auto simp: addLogEvent_def timeNowCall_def callAddLogEntry_def logTo_def Let_def
      split: prod.splits option.splits)

lemma addLogEvents_frame [simp]:
  "groupStreamToPusherMap (addLogEvents env r evs e) = groupStreamToPusherMap e"
  "nextRef (addLogEvents env r evs e) = nextRef e"
  "LogGroupName (addLogEvents env r evs e) = LogGroupName e"
  "LogStreamName (addLogEvents env r evs e) = LogStreamName e"
  "retryCount (addLogEvents env r evs e) = retryCount e"
  by (induction evs arbitrary: e) simp_all

lemma addLogEvents_pushers:
  "r' \<noteq> r \<Longrightarrow> pushers (addLogEvents env r evs e) r' = pushers e r'"
  by (induction evs arbitrary: e) (simp_all add: addLogEvent_pushers)

lemma appendLog_Cons:
  "appendLog (CallAddLogEntry r ev err # cs) = appendLog [CallAddLogEntry r ev err] @ appendLog cs"
  by (cases err) simp_all

lemma addLogEvents_calls:
  "\<exists>cs. calls (addLogEvents env r evs e) = calls e @ cs
        \<and> appended cs = map (Pair r) evs
        \<and> flushed cs = []
        \<and> filter isNewPusher cs = []
        \<and> logger (addLogEvents env r evs e) = logger e @ appendLog cs"
proof (induction evs arbitrary: e)
  case Nil
  show ?case by simp
next
  case (Cons ev evs)
  let ?e1 = "addLogEvent env r ev e"
  obtain err where c:
    "calls ?e1 =
       calls e @ [CallAddLogEntry r \<lparr>InputLogEvent = ev, GeneratedTime = timeNow env (ticks e)\<rparr> err]"
    "logger ?e1 =
       logger e @ appendLog [CallAddLogEntry r \<lparr>InputLogEvent = ev, GeneratedTime = timeNow env (ticks e)\<rparr> err]"
    using addLogEvent_calls [of env r ev e] by blast
  let ?c = "CallAddLogEntry r \<lparr>InputLogEvent = ev, GeneratedTime = timeNow env (ticks e)\<rparr> err"
  obtain cs where cs: "calls (addLogEvents env r evs ?e1) = calls ?e1 @ cs"
      "appended cs = map (Pair r) evs" "flushed cs = []" "filter isNewPusher cs = []"
      "logger (addLogEvents env r evs ?e1) = logger ?e1 @ appendLog cs"
    using Cons.IH [of ?e1] by blast
  have l: "logger ?e1 @ appendLog cs = logger e @ appendLog (?c # cs)"
    unfolding c(2) by (simp add: appendLog_Cons [of r _ err cs] del: appendLog.simps)
  show ?case
    by (rule exI [of _ "?c # cs"]) (simp add: cs c(1) l del: appendLog.simps)
qed

lemma logTo_simps [simp]:
  "logger (logTo x e) = logger e @ [x]"
  "calls (logTo x e) = calls e"
  "pushers (logTo x e) = pushers e"
  "nextRef (logTo x e) = nextRef e"
  "ticks (logTo x e) = ticks e"
  "groupStreamToPusherMap (logTo x e) = groupStreamToPusherMap e"
  "LogGroupName (logTo x e) = LogGroupName e"
  "LogStreamName (logTo x e) = LogStreamName e"
  "retryCount (logTo x e) = retryCount e"
  by (simp_all add: logTo_def)

lemma PushLogs_empty:
  assumes "translated ld = []"
  shows "PushLogs env ld e =
           (None, (snd (getLogPusher env (LogGroupName e) (LogStreamName e) e))
                    \<lparr>logger := logger e @ replicate (failures ld) droppedEntry\<rparr>)"
  using assms
  by (simp add: PushLogs_def logsToCWLogs_eq Let_def case_prod_beta)

lemma PushLogs_nonempty:
  assumes "translated ld \<noteq> []"
  shows "\<exists>cs. calls (snd (PushLogs env ld e)) =
               calls (snd (getLogPusher env (LogGroupName e) (LogStreamName e) e)) @ cs @
               [CallForceFlush (fst (getLogPusher env (LogGroupName e) (LogStreamName e) e))
                  (fst (PushLogs env ld e))]
            \<and> appended cs =
                map (Pair (fst (getLogPusher env (LogGroupName e) (LogStreamName e) e))) (translated ld)
            \<and> flushed cs = []
            \<and> filter isNewPusher cs = []
            \<and> logger (snd (PushLogs env ld e)) =
                logger e @ replicate (failures ld) droppedEntry @ [LogInfo ''Putting log events''] @
                appendLog cs @ [LogDebug ''Log events are successfully put''] @
                (case fst (PushLogs env ld e) of
                   None \<Rightarrow> []
                 | Some err \<Rightarrow> [LogError ''Error force flushing logs. Skipping to next logPusher.''])"
proof -
  let ?r = "fst (getLogPusher env (LogGroupName e) (LogStreamName e) e)"
  let ?e1 = "snd (getLogPusher env (LogGroupName e) (LogStreamName e) e)"
  let ?e3 = "logTo (LogInfo ''Putting log events'') (?e1\<lparr>logger := logger e @ replicate (failures ld) droppedEntry\<rparr>)"
  let ?e4 = "addLogEvents env ?r (translated ld) ?e3"
  let ?e5 = "logTo (LogDebug ''Log events are successfully put'') ?e4"
  obtain cs where cs: "calls ?e4 = calls ?e3 @ cs"
      "appended cs = map (Pair ?r) (translated ld)" "flushed cs = []" "filter isNewPusher cs = []"
      "logger ?e4 = logger ?e3 @ appendLog cs"
    using addLogEvents_calls [of env ?r "translated ld" ?e3] by blast
  obtain err p' where f: "ForceFlush env (pushers ?e5 ?r) = (err, p')"
    by (cases "ForceFlush env (pushers ?e5 ?r)")
  let ?e6 = "?e5\<lparr>pushers := (pushers ?e5)(?r := p'), calls := calls ?e5 @ [CallForceFlush ?r err]\<rparr>"
  have p: "PushLogs env ld e =
      (err, case err of None \<Rightarrow> ?e6
            | Some x \<Rightarrow> logTo (LogError ''Error force flushing logs. Skipping to next logPusher.'') ?e6)"
    using assms f
    by (cases err) (simp_all add: PushLogs_def logsToCWLogs_eq Let_def callForceFlush_def case_prod_beta)
  have c: "calls (snd (PushLogs env ld e)) = calls ?e1 @ cs @ [CallForceFlush ?r err]"
    unfolding p by (cases err) (simp_all add: cs)
  have l: "logger (snd (PushLogs env ld e)) =
             logger e @ replicate (failures ld) droppedEntry @ [LogInfo ''Putting log events''] @
             appendLog cs @ [LogDebug ''Log events are successfully put''] @
             (case err of None \<Rightarrow> []
              | Some x \<Rightarrow> [LogError ''Error force flushing logs. Skipping to next logPusher.''])"
    unfolding p by (cases err) (simp_all add: cs)
  have r: "fst (PushLogs env ld e) = err"
    unfolding p by simp
  show ?thesis
    unfolding r using c l cs(2,3,4) by blast
qed

lemma PushLogs_frame:
  "groupStreamToPusherMap (snd (PushLogs env ld e)) =
     groupStreamToPusherMap (snd (getLogPusher env (LogGroupName e) (LogStreamName e) e))"
  "nextRef (snd (PushLogs env ld e)) =
     nextRef (snd (getLogPusher env (LogGroupName e) (LogStreamName e) e))"
  "LogGroupName (snd (PushLogs env ld e)) = LogGroupName e"
  "LogStreamName (snd (PushLogs env ld e)) = LogStreamName e"
  "retryCount (snd (PushLogs env ld e)) = retryCount e"
  by (simp_all add: PushLogs_def logsToCWLogs_eq Let_def callForceFlush_def logTo_def
      case_prod_beta split: option.splits)

lemma PushLogs_pushers:
  assumes "r' \<noteq> fst (getLogPusher env (LogGroupName e) (LogStreamName e) e)"
  shows "pushers (snd (PushLogs env ld e)) r' = pushers e r'"
  using assms
  by (simp add: PushLogs_def logsToCWLogs_eq Let_def callForceFlush_def logTo_def
      addLogEvents_pushers getLogPusher_pushers case_prod_beta split: option.splits)

lemma Shutdown_eq:
  "Shutdown env e =
     (None, (snd (getLogPusher env (LogGroupName e) (LogStreamName e) e))
        \<lparr>pushers := (pushers (snd (getLogPusher env (LogGroupName e) (LogStreamName e) e)))
            (fst (getLogPusher env (LogGroupName e) (LogStreamName e) e) :=
               snd (ForceFlush env (pushers (snd (getLogPusher env (LogGroupName e) (LogStreamName e) e))
                  (fst (getLogPusher env (LogGroupName e) (LogStreamName e) e))))),
          calls := calls (snd (getLogPusher env (LogGroupName e) (LogStreamName e) e)) @
             [CallForceFlush (fst (getLogPusher env (LogGroupName e) (LogStreamName e) e))
                (fst (ForceFlush env (pushers (snd (getLogPusher env (LogGroupName e) (LogStreamName e) e))
                  (fst (getLogPusher env (LogGroupName e) (LogStreamName e) e)))))]\<rparr>)"
  by (simp add: Shutdown_def callForceFlush_def case_prod_beta)

lemma PushLogs_lookup:
  "lookupPusher (snd (PushLogs env ld e)) =
     lookupPusher (snd (getLogPusher env (LogGroupName e) (LogStreamName e) e))"
  by (rule lookupPusher_cong) (rule PushLogs_frame(1))

lemma PushLogs_news:
  "filter (isNewPusherFor g s) (calls (snd (PushLogs env ld e))) =
     filter (isNewPusherFor g s) (calls (snd (getLogPusher env (LogGroupName e) (LogStreamName e) e)))"
proof (cases "translated ld = []")
  case True
  then show ?thesis by (simp add: PushLogs_empty)
next
  case False
  from PushLogs_nonempty [OF False, of env e] obtain cs where
    "calls (snd (PushLogs env ld e)) =
       calls (snd (getLogPusher env (LogGroupName e) (LogStreamName e) e)) @ cs @
       [CallForceFlush (fst (getLogPusher env (LogGroupName e) (LogStreamName e) e))
          (fst (PushLogs env ld e))]"
    and "filter isNewPusher cs = []"
    by blast
  then show ?thesis by (simp add: no_new_for)
qed

lemma Shutdown_lookup:
  "lookupPusher (snd (Shutdown env e)) =
     lookupPusher (snd (getLogPusher env (LogGroupName e) (LogStreamName e) e))"
  by (rule lookupPusher_cong) (simp add: Shutdown_eq)

lemma Shutdown_news:
  "filter (isNewPusherFor g s) (calls (snd (Shutdown env e))) =
     filter (isNewPusherFor g s) (calls (snd (getLogPusher env (LogGroupName e) (LogStreamName e) e)))"
  by (simp add: Shutdown_eq)

lemma PushLogs_during:
  "\<exists>cs. callsDuring e (snd (PushLogs env ld e)) =
          (if lookupPusher e (LogGroupName e) (LogStreamName e) = None
           then [CallNewPusher (LogGroupName e) (LogStreamName e) (nextRef e)] else []) @
          cs @
          (if translated ld = [] then []
           else [CallForceFlush (fst (getLogPusher env (LogGroupName e) (LogStreamName e) e))
                   (fst (PushLogs env ld e))])
        \<and> appended cs =
            map (Pair (fst (getLogPusher env (LogGroupName e) (LogStreamName e) e))) (translated ld)
        \<and> flushed cs = []
        \<and> filter isNewPusher cs = []
        \<and> loggedDuring e (snd (PushLogs env ld e)) =
            replicate (failures ld) droppedEntry @
            (if translated ld = [] then []
             else [LogInfo ''Putting log events''] @ appendLog cs @
                  [LogDebug ''Log events are successfully put''] @
                  (case fst (PushLogs env ld e) of
                     None \<Rightarrow> []
                   | Some err \<Rightarrow> [LogError ''Error force flushing logs. Skipping to next logPusher.'']))"
proof (cases "translated ld = []")
  case True
  show ?thesis
    by (rule exI [of _ "[]"])
       (simp add: True PushLogs_empty callsDuring_def loggedDuring_def getLogPusher_calls)
next
  case False
  from PushLogs_nonempty [OF False, of env e] obtain cs where cs:
    "calls (snd (PushLogs env ld e)) =
       calls (snd (getLogPusher env (LogGroupName e) (LogStreamName e) e)) @ cs @
       [CallForceFlush (fst (getLogPusher env (LogGroupName e) (LogStreamName e) e))
          (fst (PushLogs env ld e))]"
    "appended cs =
       map (Pair (fst (getLogPusher env (LogGroupName e) (LogStreamName e) e))) (translated ld)"
    "flushed cs = []" "filter isNewPusher cs = []"
    "logger (snd (PushLogs env ld e)) =
       logger e @ replicate (failures ld) droppedEntry @ [LogInfo ''Putting log events''] @
       appendLog cs @ [LogDebug ''Log events are successfully put''] @
       (case fst (PushLogs env ld e) of
          None \<Rightarrow> []
        | Some err \<Rightarrow> [LogError ''Error force flushing logs. Skipping to next logPusher.''])"
    by blast
  show ?thesis
    by (rule exI [of _ cs])
       (simp add: False cs callsDuring_def loggedDuring_def getLogPusher_calls)
qed

lemma PushLogs_result_empty: "translated ld = [] \<Longrightarrow> fst (PushLogs env ld e) = None"
  by (simp add: PushLogs_empty)

text \<open>
  \<open>PushLogs\<close> without bound variables, for evaluation on concrete batches.
\<close>

lemma PushLogs_code [code]:
  "PushLogs env ld e =
     (if translated ld = []
      then (None, (snd (getLogPusher env (LogGroupName e) (LogStreamName e) e))
                    \<lparr>logger := logger e @ replicate (failures ld) droppedEntry\<rparr>)
      else (case callForceFlush env (fst (getLogPusher env (LogGroupName e) (LogStreamName e) e))
                   (logTo (LogDebug ''Log events are successfully put'')
                      (addLogEvents env (fst (getLogPusher env (LogGroupName e) (LogStreamName e) e))
                         (translated ld)
                         (logTo (LogInfo ''Putting log events'')
                            ((snd (getLogPusher env (LogGroupName e) (LogStreamName e) e))
                               \<lparr>logger := logger e @ replicate (failures ld) droppedEntry\<rparr>)))) of
              (flushErr, e6) \<Rightarrow>
                (case flushErr of
                   Some err \<Rightarrow>
                     (Some err,
                      logTo (LogError ''Error force flushing logs. Skipping to next logPusher.'') e6)
                 | None \<Rightarrow> (None, e6))))"
  by (simp add: PushLogs_def logsToCWLogs_eq Let_def case_prod_beta)

subsection \<open>What reaches the Pusher\<close>

lemma InputLogEvent_eventsAt: "map InputLogEvent (eventsAt env t evs) = evs"
  by (induction evs arbitrary: t) simp_all

lemma appended_addCalls: "appended (addCalls env r p evs) = map (\<lambda>ev. (r, InputLogEvent ev)) evs"
  by (induction evs arbitrary: p) simp_all

lemma flushed_addCalls: "flushed (addCalls env r p evs) = []"
  by (induction evs arbitrary: p) simp_all

lemma addLogEvent_exact:
  "ticks (addLogEvent env r ev e) = Suc (ticks e)"
  "pushers (addLogEvent env r ev e) r =
     snd (AddLogEntry env (pushers e r) \<lparr>InputLogEvent = ev, GeneratedTime = timeNow env (ticks e)\<rparr>)"
  "calls (addLogEvent env r ev e) =
     calls e @
     [CallAddLogEntry r \<lparr>InputLogEvent = ev, GeneratedTime = timeNow env (ticks e)\<rparr>
        (fst (AddLogEntry env (pushers e r)
           \<lparr>InputLogEvent = ev, GeneratedTime = timeNow env (ticks e)\<rparr>))]"
  by (auto simp: addLogEvent_def timeNowCall_def callAddLogEntry_def logTo_def Let_def
      split: prod.splits option.splits)

lemma addLogEvents_exact:
  "ticks (addLogEvents env r evs e) = ticks e + length evs
   \<and> pushers (addLogEvents env r evs e) r = handed env (pushers e r) (eventsAt env (ticks e) evs)
   \<and> calls (addLogEvents env r evs e) =
       calls e @ addCalls env r (pushers e r) (eventsAt env (ticks e) evs)"
proof (induction evs arbitrary: e)
  case Nil
  show ?case by simp
next
  case (Cons ev evs)
  show ?case
    using Cons.IH [of "addLogEvent env r ev e"]
    by (simp add: addLogEvent_exact)
qed

lemma getLogPusher_calls_configured:
  "calls (snd (getLogPusher env (LogGroupName e) (LogStreamName e) e)) = calls e @ constructionOf e"
  by (simp add: getLogPusher_calls constructionOf_def)

lemma PushLogs_exact:
  assumes "translated ld \<noteq> []"
  shows "fst (PushLogs env ld e) =
           fst (ForceFlush env (handed env (configuredState env e)
                  (eventsAt env (ticks e) (translated ld))))"
    and "pushers (snd (PushLogs env ld e)) (configuredPusher env e) =
           snd (ForceFlush env (handed env (configuredState env e)
                  (eventsAt env (ticks e) (translated ld))))"
    and "callsDuring e (snd (PushLogs env ld e)) =
           constructionOf e @
           addCalls env (configuredPusher env e) (configuredState env e)
             (eventsAt env (ticks e) (translated ld)) @
           [CallForceFlush (configuredPusher env e)
              (fst (ForceFlush env (handed env (configuredState env e)
                      (eventsAt env (ticks e) (translated ld)))))]"
proof -
  let ?r = "fst (getLogPusher env (LogGroupName e) (LogStreamName e) e)"
  let ?e1 = "snd (getLogPusher env (LogGroupName e) (LogStreamName e) e)"
  let ?e3 = "logTo (LogInfo ''Putting log events'')
               (?e1\<lparr>logger := logger e @ replicate (failures ld) droppedEntry\<rparr>)"
  let ?e4 = "addLogEvents env ?r (translated ld) ?e3"
  let ?e5 = "logTo (LogDebug ''Log events are successfully put'') ?e4"
  have x: "pushers ?e4 ?r = handed env (pushers ?e1 ?r) (eventsAt env (ticks e) (translated ld))"
          "calls ?e4 = calls e @ constructionOf e @
             addCalls env ?r (pushers ?e1 ?r) (eventsAt env (ticks e) (translated ld))"
    using addLogEvents_exact [of env ?r "translated ld" ?e3]
    by (simp_all add: getLogPusher_calls_configured)
  obtain err p' where f: "ForceFlush env (pushers ?e5 ?r) = (err, p')"
    by (cases "ForceFlush env (pushers ?e5 ?r)")
  let ?e6 = "?e5\<lparr>pushers := (pushers ?e5)(?r := p'), calls := calls ?e5 @ [CallForceFlush ?r err]\<rparr>"
  have p: "PushLogs env ld e =
      (err, case err of None \<Rightarrow> ?e6
            | Some x \<Rightarrow> logTo (LogError ''Error force flushing logs. Skipping to next logPusher.'') ?e6)"
    using assms f
    by (cases err) (simp_all add: PushLogs_def logsToCWLogs_eq Let_def callForceFlush_def case_prod_beta)
  have h: "ForceFlush env (handed env (configuredState env e) (eventsAt env (ticks e) (translated ld)))
             = (err, p')"
    using f by (simp add: x(1) configuredState_def configuredPusher_def)
  show "fst (PushLogs env ld e) =
           fst (ForceFlush env (handed env (configuredState env e)
                  (eventsAt env (ticks e) (translated ld))))"
    unfolding h p by simp
  show "pushers (snd (PushLogs env ld e)) (configuredPusher env e) =
           snd (ForceFlush env (handed env (configuredState env e)
                  (eventsAt env (ticks e) (translated ld))))"
    unfolding h p by (cases err) (simp_all add: configuredPusher_def)
  show "callsDuring e (snd (PushLogs env ld e)) =
           constructionOf e @
           addCalls env (configuredPusher env e) (configuredState env e)
             (eventsAt env (ticks e) (translated ld)) @
           [CallForceFlush (configuredPusher env e)
              (fst (ForceFlush env (handed env (configuredState env e)
                      (eventsAt env (ticks e) (translated ld)))))]"
    unfolding h p
    by (cases err) (simp_all add: callsDuring_def x(2) configuredState_def configuredPusher_def)
qed

lemma PushLogs_exact_empty:
  assumes "translated ld = []"
  shows "fst (PushLogs env ld e) = None"
    and "pushers (snd (PushLogs env ld e)) (configuredPusher env e) = configuredState env e"
    and "callsDuring e (snd (PushLogs env ld e)) = constructionOf e"
  using assms
  by (simp_all add: PushLogs_empty configuredState_def configuredPusher_def callsDuring_def
      getLogPusher_calls_configured)

lemma Shutdown_exact:
  "pushers (snd (Shutdown env e)) (configuredPusher env e) =
     snd (ForceFlush env (configuredState env e))"
  "callsDuring e (snd (Shutdown env e)) =
     constructionOf e @
     [CallForceFlush (configuredPusher env e) (fst (ForceFlush env (configuredState env e)))]"
  by (simp_all add: Shutdown_eq configuredState_def configuredPusher_def callsDuring_def
      getLogPusher_calls_configured)

subsection \<open>Runs\<close>

lemma constructedOnce_getLogPusher:
  assumes "constructedOnce e"
  shows "constructedOnce (snd (getLogPusher env g s e))"
  unfolding constructedOnce_def
proof (intro allI)
  fix g' s'
  show "length (filter (isNewPusherFor g' s') (calls (snd (getLogPusher env g s e)))) =
          (case lookupPusher (snd (getLogPusher env g s e)) g' s' of None \<Rightarrow> 0 | Some r \<Rightarrow> 1)"
    using assms [unfolded constructedOnce_def, rule_format, of g' s']
    by (auto simp: getLogPusher_calls getLogPusher_lookup split: option.splits)
qed

lemma lookup_kept_getLogPusher:
  "lookupPusher e g' s' = Some r \<Longrightarrow> lookupPusher (snd (getLogPusher env g s e)) g' s' = Some r"
  by (auto simp: getLogPusher_lookup getLogPusher_fst)

lemma constructedOnce_step:
  assumes "constructedOnce e"
  shows "constructedOnce (step env x e)"
proof (cases x)
  case (OpPushLogs ld)
  show ?thesis
    using constructedOnce_getLogPusher [OF assms, of env "LogGroupName e" "LogStreamName e"]
    by (simp add: OpPushLogs constructedOnce_def PushLogs_lookup PushLogs_news)
next
  case OpShutdown
  show ?thesis
    using constructedOnce_getLogPusher [OF assms, of env "LogGroupName e" "LogStreamName e"]
    by (simp add: OpShutdown constructedOnce_def Shutdown_lookup Shutdown_news)
next
  case (OpGetLogPusher g s)
  show ?thesis
    using constructedOnce_getLogPusher [OF assms, of env g s]
    by (simp add: OpGetLogPusher)
qed

lemma lookup_kept_step:
  assumes "lookupPusher e g s = Some r"
  shows "lookupPusher (step env x e) g s = Some r"
proof (cases x)
  case (OpPushLogs ld)
  show ?thesis
    using lookup_kept_getLogPusher [OF assms] by (simp add: OpPushLogs PushLogs_lookup)
next
  case OpShutdown
  show ?thesis
    using lookup_kept_getLogPusher [OF assms] by (simp add: OpShutdown Shutdown_lookup)
next
  case (OpGetLogPusher g' s')
  show ?thesis
    using lookup_kept_getLogPusher [OF assms] by (simp add: OpGetLogPusher)
qed

lemma constructedOnce_run: "constructedOnce e \<Longrightarrow> constructedOnce (run env ops e)"
  unfolding run_def by (induction ops arbitrary: e) (simp_all add: constructedOnce_step)

lemma lookup_kept_run:
  "lookupPusher e g s = Some r \<Longrightarrow> lookupPusher (run env ops e) g s = Some r"
  unfolding run_def by (induction ops arbitrary: e) (simp_all add: lookup_kept_step)

lemma constructedOnce_newExporter: "constructedOnce (newExporter G S n p0)"
  by (simp add: constructedOnce_def newExporter_def lookupPusher_def)

subsection \<open>The export coordinator\<close>



text \<open>
  C6. A batch with no resource group, or whose records all fail to translate, makes
  \<open>PushLogs\<close> return \<open>nil\<close> with no append and no flush called, and no Pusher that
  existed before changed.
\<close>

theorem PushLogs_no_events:
  assumes "ld = [] \<or> list_all (\<lambda>x. translate x = None) (recordsOf ld)"
  shows "fst (PushLogs env ld e) = None
       \<and> appended (callsDuring e (snd (PushLogs env ld e))) = []
       \<and> flushed (callsDuring e (snd (PushLogs env ld e))) = []
       \<and> (\<forall>r<nextRef e. pushers (snd (PushLogs env ld e)) r = pushers e r)"
proof -
  have t: "translated ld = []"
    using assms by (auto simp: translated_empty_iff recordsOf_def)
  have "appended (callsDuring e (snd (PushLogs env ld e))) = []"
       "flushed (callsDuring e (snd (PushLogs env ld e))) = []"
    using PushLogs_during [of e env ld] by (auto simp: t)
  moreover have "pushers (snd (PushLogs env ld e)) r = pushers e r" if "r < nextRef e" for r
    using that by (simp add: PushLogs_empty [OF t] getLogPusher_pushers_old)
  ultimately show ?thesis
    by (simp add: PushLogs_result_empty [OF t])
qed

theorem PushLogs_no_events_witness:
  "list_all (\<lambda>x. translate x = None) (recordsOf (batchOf [nanRecord, nanRecord]))
   \<and> fst (PushLogs failingEnv (batchOf [nanRecord, nanRecord]) (newExporter ''g'' ''s'' 1 0)) = None
   \<and> callsDuring (newExporter ''g'' ''s'' 1 0)
        (snd (PushLogs failingEnv (batchOf [nanRecord, nanRecord]) (newExporter ''g'' ''s'' 1 0)))
       = [CallNewPusher ''g'' ''s'' 0]
   \<and> fst (PushLogs failingEnv [] (newExporter ''g'' ''s'' 1 0)) = None
   \<and> callsDuring (newExporter ''g'' ''s'' 1 0)
        (snd (PushLogs failingEnv [] (newExporter ''g'' ''s'' 1 0)))
       = [CallNewPusher ''g'' ''s'' 0]
   \<and> callsDuring (run failingEnv [OpPushLogs (batchOf [stamped 1])] (newExporter ''g'' ''s'' 1 0))
        (snd (PushLogs failingEnv (batchOf [nanRecord])
           (run failingEnv [OpPushLogs (batchOf [stamped 1])] (newExporter ''g'' ''s'' 1 0))))
       = []
   \<and> pushers (snd (PushLogs failingEnv (batchOf [nanRecord])
           (run failingEnv [OpPushLogs (batchOf [stamped 1])] (newExporter ''g'' ''s'' 1 0)))) 0
       = 1"
proof -
  have a: "list_all (\<lambda>x. translate x = None) (recordsOf (batchOf [nanRecord, nanRecord]))"
    by code_simp
  have b: "callsDuring (newExporter ''g'' ''s'' 1 0)
        (snd (PushLogs failingEnv (batchOf [nanRecord, nanRecord]) (newExporter ''g'' ''s'' 1 0)))
       = [CallNewPusher ''g'' ''s'' 0]"
    by code_simp
  have c: "callsDuring (newExporter ''g'' ''s'' 1 0)
        (snd (PushLogs failingEnv [] (newExporter ''g'' ''s'' 1 0)))
       = [CallNewPusher ''g'' ''s'' 0]"
    by code_simp
  have d: "callsDuring (run failingEnv [OpPushLogs (batchOf [stamped 1])] (newExporter ''g'' ''s'' 1 0))
        (snd (PushLogs failingEnv (batchOf [nanRecord])
           (run failingEnv [OpPushLogs (batchOf [stamped 1])] (newExporter ''g'' ''s'' 1 0))))
       = []"
    by code_simp
  have f: "pushers (snd (PushLogs failingEnv (batchOf [nanRecord])
           (run failingEnv [OpPushLogs (batchOf [stamped 1])] (newExporter ''g'' ''s'' 1 0)))) 0
       = 1"
    by code_simp
  have g: "fst (PushLogs failingEnv (batchOf [nanRecord, nanRecord]) (newExporter ''g'' ''s'' 1 0)) = None"
    using PushLogs_no_events [of "batchOf [nanRecord, nanRecord]" failingEnv "newExporter ''g'' ''s'' 1 0"] a
    by blast
  have h: "fst (PushLogs failingEnv [] (newExporter ''g'' ''s'' 1 0)) = None"
    using PushLogs_no_events [of "[]" failingEnv "newExporter ''g'' ''s'' 1 0"]
    by blast
  show ?thesis
    using a b c d f g h by blast
qed

text \<open>
  C7. \<open>logsToCWLogs\<close> returns the events of the records that translate, in order, and
  the number of those that do not, each of which it logs once; events and drops
  together are as many as the records. \<open>PushLogs\<close> hands exactly these events to the
  resolved Pusher: the Pusher ends in the state that \<open>AddLogEntry\<close> on each of them in
  turn and then \<open>ForceFlush\<close> leave it in, and \<open>PushLogs\<close> returns what that flush
  returns, so \<open>nil\<close> when it succeeds. The instance after it is the batch of five
  records whose third fails: four events reach the Pusher, one drop, no error.
\<close>

theorem logsToCWLogs_drops_failures:
  "logsToCWLogs lg ld =
     ((List.map_filter translate (recordsOf ld),
       length (filter (\<lambda>x. translate x = None) (recordsOf ld))),
      lg @ replicate (length (filter (\<lambda>x. translate x = None) (recordsOf ld)))
             (LogDebug ''Failed to convert to CloudWatch Log''))
   \<and> length (translated ld) + failures ld = length (recordsOf ld)
   \<and> map snd (appended (callsDuring e (snd (PushLogs env ld e)))) = translated ld
   \<and> (list_all (\<lambda>c. snd c = None) (flushed (callsDuring e (snd (PushLogs env ld e))))
        \<longrightarrow> fst (PushLogs env ld e) = None)
   \<and> map InputLogEvent (eventsAt env (ticks e) (translated ld)) = translated ld
   \<and> length (eventsAt env (ticks e) (translated ld)) + failures ld = length (recordsOf ld)
   \<and> pushers (snd (PushLogs env ld e)) (configuredPusher env e) =
       (if translated ld = [] then configuredState env e
        else snd (ForceFlush env (handed env (configuredState env e)
                (eventsAt env (ticks e) (translated ld)))))
   \<and> fst (PushLogs env ld e) =
       (if translated ld = [] then None
        else fst (ForceFlush env (handed env (configuredState env e)
                (eventsAt env (ticks e) (translated ld)))))"
proof -
  from PushLogs_during [of e env ld] obtain cs where cs:
    "callsDuring e (snd (PushLogs env ld e)) =
          (if lookupPusher e (LogGroupName e) (LogStreamName e) = None
           then [CallNewPusher (LogGroupName e) (LogStreamName e) (nextRef e)] else []) @
          cs @
          (if translated ld = [] then []
           else [CallForceFlush (fst (getLogPusher env (LogGroupName e) (LogStreamName e) e))
                   (fst (PushLogs env ld e))])"
    "appended cs =
       map (Pair (fst (getLogPusher env (LogGroupName e) (LogStreamName e) e))) (translated ld)"
    "flushed cs = []"
    by blast
  have a: "map snd (appended (callsDuring e (snd (PushLogs env ld e)))) = translated ld"
    unfolding cs(1) by (simp add: cs(2) o_def)
  have f: "fst (PushLogs env ld e) = None"
    if "list_all (\<lambda>c. snd c = None) (flushed (callsDuring e (snd (PushLogs env ld e))))"
    using that unfolding cs(1)
    by (cases "translated ld = []") (simp_all add: cs(3) PushLogs_result_empty)
  have n: "length (eventsAt env (ticks e) (translated ld)) = length (translated ld)"
    using arg_cong [OF InputLogEvent_eventsAt [of env "ticks e" "translated ld"], of length]
    by simp
  have p: "pushers (snd (PushLogs env ld e)) (configuredPusher env e) =
       (if translated ld = [] then configuredState env e
        else snd (ForceFlush env (handed env (configuredState env e)
                (eventsAt env (ticks e) (translated ld)))))"
    using PushLogs_exact(2) [where ld = ld and env = env and e = e]
      PushLogs_exact_empty(2) [where ld = ld and env = env and e = e]
    by simp
  have r: "fst (PushLogs env ld e) =
       (if translated ld = [] then None
        else fst (ForceFlush env (handed env (configuredState env e)
                (eventsAt env (ticks e) (translated ld)))))"
    using PushLogs_exact(1) [where ld = ld and env = env and e = e]
      PushLogs_exact_empty(1) [where ld = ld and env = env and e = e]
    by simp
  have 1: "logsToCWLogs lg ld =
     ((List.map_filter translate (recordsOf ld),
       length (filter (\<lambda>x. translate x = None) (recordsOf ld))),
      lg @ replicate (length (filter (\<lambda>x. translate x = None) (recordsOf ld)))
             (LogDebug ''Failed to convert to CloudWatch Log''))"
    by (simp add: logsToCWLogs_eq translated_def failures_def)
  have 2: "length (eventsAt env (ticks e) (translated ld)) + failures ld = length (recordsOf ld)"
    unfolding n by (rule translated_failures)
  show ?thesis
    using 1 translated_failures [of ld] a f InputLogEvent_eventsAt [of env "ticks e" "translated ld"]
      2 p r
    by blast
qed

theorem logsToCWLogs_drops_failures_witness:
  "logsToCWLogs [] (batchOf [stamped 1, stamped 2, nanRecord, stamped 4, stamped 5])
     = (([stampedEvent 1, stampedEvent 2, stampedEvent 4, stampedEvent 5], 1),
        [LogDebug ''Failed to convert to CloudWatch Log''])
   \<and> map snd (appended (callsDuring (newExporter ''g'' ''s'' 1 0)
        (snd (PushLogs countingEnv (batchOf [stamped 1, stamped 2, nanRecord, stamped 4, stamped 5])
           (newExporter ''g'' ''s'' 1 0)))))
     = [stampedEvent 1, stampedEvent 2, stampedEvent 4, stampedEvent 5]
   \<and> list_all (\<lambda>c. snd c = None) (flushed (callsDuring (newExporter ''g'' ''s'' 1 0)
        (snd (PushLogs countingEnv (batchOf [stamped 1, stamped 2, nanRecord, stamped 4, stamped 5])
           (newExporter ''g'' ''s'' 1 0)))))
   \<and> fst (PushLogs countingEnv (batchOf [stamped 1, stamped 2, nanRecord, stamped 4, stamped 5])
           (newExporter ''g'' ''s'' 1 0)) = None
   \<and> configuredPusher recordingEnv (newExporter ''g'' ''s'' 1 ([], [])) = 0
   \<and> pushers (snd (PushLogs recordingEnv
           (batchOf [stamped 1, stamped 2, nanRecord, stamped 4, stamped 5])
           (newExporter ''g'' ''s'' 1 ([], [])))) 0
       = ([], [[\<lparr>InputLogEvent = stampedEvent 1, GeneratedTime = 0\<rparr>,
                \<lparr>InputLogEvent = stampedEvent 2, GeneratedTime = 1\<rparr>,
                \<lparr>InputLogEvent = stampedEvent 4, GeneratedTime = 2\<rparr>,
                \<lparr>InputLogEvent = stampedEvent 5, GeneratedTime = 3\<rparr>]])
   \<and> fst (PushLogs recordingEnv
           (batchOf [stamped 1, stamped 2, nanRecord, stamped 4, stamped 5])
           (newExporter ''g'' ''s'' 1 ([], []))) = None"
proof -
  let ?ld = "batchOf [stamped 1, stamped 2, nanRecord, stamped 4, stamped 5]"
  let ?e = "newExporter ''g'' ''s'' 1 (0::nat)"
  let ?e' = "newExporter ''g'' ''s'' 1 ([]::Event list, []::Event list list)"
  let ?p = "([]::Event list,
            [[\<lparr>InputLogEvent = stampedEvent 1, GeneratedTime = 0\<rparr>,
              \<lparr>InputLogEvent = stampedEvent 2, GeneratedTime = 1\<rparr>,
              \<lparr>InputLogEvent = stampedEvent 4, GeneratedTime = 2\<rparr>,
              \<lparr>InputLogEvent = stampedEvent 5, GeneratedTime = 3\<rparr>]])"
  have a: "List.map_filter translate (recordsOf ?ld)
           = [stampedEvent 1, stampedEvent 2, stampedEvent 4, stampedEvent 5]"
    by code_simp
  have b: "length (filter (\<lambda>x. translate x = None) (recordsOf ?ld)) = 1"
    by code_simp
  have c: "list_all (\<lambda>c. snd c = None)
             (flushed (callsDuring ?e (snd (PushLogs countingEnv ?ld ?e))))"
    by code_simp
  note t = logsToCWLogs_drops_failures [where lg = "[]" and ld = ?ld and e = ?e and env = countingEnv]
  have 1: "logsToCWLogs [] ?ld
     = (([stampedEvent 1, stampedEvent 2, stampedEvent 4, stampedEvent 5], 1),
        [LogDebug ''Failed to convert to CloudWatch Log''])"
    using conjunct1 [OF t] unfolding a b by simp
  have 2: "map snd (appended (callsDuring ?e (snd (PushLogs countingEnv ?ld ?e))))
     = [stampedEvent 1, stampedEvent 2, stampedEvent 4, stampedEvent 5]"
    using t unfolding translated_def a by blast
  have 3: "fst (PushLogs countingEnv ?ld ?e) = None"
    using t c by blast
  have 4: "configuredPusher recordingEnv ?e' = 0"
    by code_simp
  have 5: "pushers (snd (PushLogs recordingEnv ?ld ?e')) 0 = ?p"
    by code_simp
  have 6: "fst (ForceFlush recordingEnv (handed recordingEnv (configuredState recordingEnv ?e')
                (eventsAt recordingEnv (ticks ?e') (translated ?ld)))) = None"
    by code_simp
  have 7: "translated ?ld \<noteq> []"
    by code_simp
  note t' = logsToCWLogs_drops_failures
    [where lg = "[]" and ld = ?ld and e = ?e' and env = recordingEnv]
  have "fst (PushLogs recordingEnv ?ld ?e') =
       (if translated ?ld = [] then None
        else fst (ForceFlush recordingEnv (handed recordingEnv (configuredState recordingEnv ?e')
                (eventsAt recordingEnv (ticks ?e') (translated ?ld)))))"
    using t' by blast
  also have "\<dots> = fst (ForceFlush recordingEnv (handed recordingEnv (configuredState recordingEnv ?e')
                (eventsAt recordingEnv (ticks ?e') (translated ?ld))))"
    using 7 by (rule if_not_P)
  finally have 8: "fst (PushLogs recordingEnv ?ld ?e') = None"
    unfolding 6 .
  show ?thesis
    by (intro conjI 1 2 3 c 4 5 8)
qed

text \<open>
  C10. The events that one call of \<open>PushLogs\<close> appends, all to the resolved Pusher, are
  the translations of the batch's records in the order of resource group, then scope,
  then record, the records that fail left out: nothing reordered, nothing twice. The
  calls are \<open>AddLogEntry\<close> on each of these events in that order, each recorded with
  what the Pusher returned, then the flush; and the Pusher ends in the state that
  these calls, made in this order, leave it in.
\<close>

theorem PushLogs_append_order:
  "appended (callsDuring e (snd (PushLogs env ld e))) =
     map (Pair (fst (getLogPusher env (LogGroupName e) (LogStreamName e) e)))
         (List.map_filter translate (recordsOf ld))
   \<and> map InputLogEvent (eventsAt env (ticks e) (List.map_filter translate (recordsOf ld)))
       = List.map_filter translate (recordsOf ld)
   \<and> callsDuring e (snd (PushLogs env ld e)) =
       constructionOf e @
       addCalls env (configuredPusher env e) (configuredState env e)
         (eventsAt env (ticks e) (List.map_filter translate (recordsOf ld))) @
       (if List.map_filter translate (recordsOf ld) = [] then []
        else [CallForceFlush (configuredPusher env e)
                (fst (ForceFlush env (handed env (configuredState env e)
                   (eventsAt env (ticks e) (List.map_filter translate (recordsOf ld))))))])
   \<and> pushers (snd (PushLogs env ld e)) (configuredPusher env e) =
       (if List.map_filter translate (recordsOf ld) = [] then configuredState env e
        else snd (ForceFlush env (handed env (configuredState env e)
                (eventsAt env (ticks e) (List.map_filter translate (recordsOf ld))))))"
proof -
  have a: "appended (callsDuring e (snd (PushLogs env ld e))) =
     map (Pair (fst (getLogPusher env (LogGroupName e) (LogStreamName e) e))) (translated ld)"
    using PushLogs_during [of e env ld] by auto
  show ?thesis
  proof (cases "translated ld = []")
    case True
    show ?thesis
      using a PushLogs_exact_empty(2,3) [OF True, where env = env and e = e]
      by (simp add: translated_def [symmetric] True)
  next
    case False
    show ?thesis
      using a PushLogs_exact(2,3) [OF False, where env = env and e = e]
      by (simp add: translated_def [symmetric] False InputLogEvent_eventsAt)
  qed
qed

theorem PushLogs_append_order_witness:
  "appended (callsDuring (newExporter ''g'' ''s'' 1 0)
      (snd (PushLogs countingEnv
         [groupOf [] [[stamped 1], [nanRecord, stamped 2]],
          groupOf [(''host'', AttributeValueTypeString ''a'')] [[], [stamped 4, nanRecord], [stamped 5]]]
         (newExporter ''g'' ''s'' 1 0))))
   = [(0, stampedEvent 1), (0, stampedEvent 2),
      (0, \<lparr>Timestamp = 4, Message = JObject [(''resource'', JObject [(''host'', JString ''a'')])]\<rparr>),
      (0, \<lparr>Timestamp = 5, Message = JObject [(''resource'', JObject [(''host'', JString ''a'')])]\<rparr>)]
   \<and> configuredPusher recordingEnv (newExporter ''g'' ''s'' 1 ([], [])) = 0
   \<and> pushers (snd (PushLogs recordingEnv
         [groupOf [] [[stamped 1], [nanRecord, stamped 2]],
          groupOf [(''host'', AttributeValueTypeString ''a'')] [[], [stamped 4, nanRecord], [stamped 5]]]
         (newExporter ''g'' ''s'' 1 ([], [])))) 0
     = ([],
        [[\<lparr>InputLogEvent = stampedEvent 1, GeneratedTime = 0\<rparr>,
          \<lparr>InputLogEvent = stampedEvent 2, GeneratedTime = 1\<rparr>,
          \<lparr>InputLogEvent =
             \<lparr>Timestamp = 4, Message = JObject [(''resource'', JObject [(''host'', JString ''a'')])]\<rparr>,
           GeneratedTime = 2\<rparr>,
          \<lparr>InputLogEvent =
             \<lparr>Timestamp = 5, Message = JObject [(''resource'', JObject [(''host'', JString ''a'')])]\<rparr>,
           GeneratedTime = 3\<rparr>]])
   \<and> snd (ForceFlush recordingEnv
        (handed recordingEnv (configuredState recordingEnv (newExporter ''g'' ''s'' 1 ([], [])))
           (eventsAt recordingEnv
              (ticks (newExporter ''g'' ''s'' 1 ([]::Event list, []::Event list list)))
              (List.map_filter translate (recordsOf
                 [groupOf [] [[stamped 1], [nanRecord, stamped 2]],
                  groupOf [(''host'', AttributeValueTypeString ''a'')]
                    [[], [stamped 4, nanRecord], [stamped 5]]])))))
     = ([],
        [[\<lparr>InputLogEvent = stampedEvent 1, GeneratedTime = 0\<rparr>,
          \<lparr>InputLogEvent = stampedEvent 2, GeneratedTime = 1\<rparr>,
          \<lparr>InputLogEvent =
             \<lparr>Timestamp = 4, Message = JObject [(''resource'', JObject [(''host'', JString ''a'')])]\<rparr>,
           GeneratedTime = 2\<rparr>,
          \<lparr>InputLogEvent =
             \<lparr>Timestamp = 5, Message = JObject [(''resource'', JObject [(''host'', JString ''a'')])]\<rparr>,
           GeneratedTime = 3\<rparr>]])"
proof -
  let ?ld = "[groupOf [] [[stamped 1], [nanRecord, stamped 2]],
          groupOf [(''host'', AttributeValueTypeString ''a'')] [[], [stamped 4, nanRecord], [stamped 5]]]"
  let ?e = "newExporter ''g'' ''s'' 1 (0::nat)"
  let ?e' = "newExporter ''g'' ''s'' 1 ([]::Event list, []::Event list list)"
  let ?p = "([]::Event list,
        [[\<lparr>InputLogEvent = stampedEvent 1, GeneratedTime = 0\<rparr>,
          \<lparr>InputLogEvent = stampedEvent 2, GeneratedTime = 1\<rparr>,
          \<lparr>InputLogEvent =
             \<lparr>Timestamp = 4, Message = JObject [(''resource'', JObject [(''host'', JString ''a'')])]\<rparr>,
           GeneratedTime = 2\<rparr>,
          \<lparr>InputLogEvent =
             \<lparr>Timestamp = 5, Message = JObject [(''resource'', JObject [(''host'', JString ''a'')])]\<rparr>,
           GeneratedTime = 3\<rparr>]])"
  have a: "map (Pair (fst (getLogPusher countingEnv ''g'' ''s'' ?e)))
         (List.map_filter translate (recordsOf ?ld))
   = [(0, stampedEvent 1), (0, stampedEvent 2),
      (0, \<lparr>Timestamp = 4, Message = JObject [(''resource'', JObject [(''host'', JString ''a'')])]\<rparr>),
      (0, \<lparr>Timestamp = 5, Message = JObject [(''resource'', JObject [(''host'', JString ''a'')])]\<rparr>)]"
    by code_simp
  have b: "appended (callsDuring ?e (snd (PushLogs countingEnv ?ld ?e)))
   = [(0, stampedEvent 1), (0, stampedEvent 2),
      (0, \<lparr>Timestamp = 4, Message = JObject [(''resource'', JObject [(''host'', JString ''a'')])]\<rparr>),
      (0, \<lparr>Timestamp = 5, Message = JObject [(''resource'', JObject [(''host'', JString ''a'')])]\<rparr>)]"
    using a conjunct1 [OF PushLogs_append_order [where e = ?e and env = countingEnv and ld = ?ld]]
    by (simp add: newExporter_def)
  have c: "configuredPusher recordingEnv ?e' = 0"
    by code_simp
  have d: "pushers (snd (PushLogs recordingEnv ?ld ?e')) 0 = ?p"
    by code_simp
  have n: "List.map_filter translate (recordsOf ?ld) \<noteq> []"
    by code_simp
  have t: "pushers (snd (PushLogs recordingEnv ?ld ?e')) (configuredPusher recordingEnv ?e') =
       (if List.map_filter translate (recordsOf ?ld) = [] then configuredState recordingEnv ?e'
        else snd (ForceFlush recordingEnv (handed recordingEnv (configuredState recordingEnv ?e')
                (eventsAt recordingEnv (ticks ?e') (List.map_filter translate (recordsOf ?ld))))))"
    by (rule conjunct2 [OF conjunct2 [OF conjunct2
          [OF PushLogs_append_order [where e = ?e' and env = recordingEnv and ld = ?ld]]]])
  have f: "snd (ForceFlush recordingEnv
        (handed recordingEnv (configuredState recordingEnv ?e')
           (eventsAt recordingEnv (ticks ?e') (List.map_filter translate (recordsOf ?ld))))) = ?p"
  proof -
    have "?p =
       (if List.map_filter translate (recordsOf ?ld) = [] then configuredState recordingEnv ?e'
        else snd (ForceFlush recordingEnv (handed recordingEnv (configuredState recordingEnv ?e')
                (eventsAt recordingEnv (ticks ?e') (List.map_filter translate (recordsOf ?ld))))))"
      using t unfolding c d .
    also have "\<dots> = snd (ForceFlush recordingEnv (handed recordingEnv (configuredState recordingEnv ?e')
                (eventsAt recordingEnv (ticks ?e') (List.map_filter translate (recordsOf ?ld)))))"
      using n by (rule if_not_P)
    finally show ?thesis
      by (rule sym)
  qed
  show ?thesis
    by (intro conjI b c d f)
qed

text \<open>
  C9. \<open>Shutdown\<close> returns \<open>nil\<close> whatever the flush returns; it makes one flush, on the
  Pusher that the map of maps holds for the configured group and stream, and no
  append; that Pusher ends in the state \<open>ForceFlush\<close> returns for it, and the state of
  every other Pusher is unchanged.
\<close>

theorem Shutdown_flushes_configured:
  "fst (Shutdown env e) = None
   \<and> map fst (flushed (callsDuring e (snd (Shutdown env e))))
       = [fst (getLogPusher env (LogGroupName e) (LogStreamName e) e)]
   \<and> lookupPusher (snd (Shutdown env e)) (LogGroupName e) (LogStreamName e)
       = Some (fst (getLogPusher env (LogGroupName e) (LogStreamName e) e))
   \<and> appended (callsDuring e (snd (Shutdown env e))) = []
   \<and> (\<forall>r. r \<noteq> fst (getLogPusher env (LogGroupName e) (LogStreamName e) e)
          \<longrightarrow> pushers (snd (Shutdown env e)) r = pushers e r)
   \<and> pushers (snd (Shutdown env e)) (configuredPusher env e)
       = snd (ForceFlush env (configuredState env e))
   \<and> callsDuring e (snd (Shutdown env e))
       = constructionOf e @
         [CallForceFlush (configuredPusher env e) (fst (ForceFlush env (configuredState env e)))]"
proof -
  have l: "lookupPusher (snd (Shutdown env e)) (LogGroupName e) (LogStreamName e)
       = Some (fst (getLogPusher env (LogGroupName e) (LogStreamName e) e))"
    by (simp add: Shutdown_lookup getLogPusher_again)
  have o: "fst (Shutdown env e) = None
   \<and> map fst (flushed (callsDuring e (snd (Shutdown env e))))
       = [fst (getLogPusher env (LogGroupName e) (LogStreamName e) e)]
   \<and> appended (callsDuring e (snd (Shutdown env e))) = []
   \<and> (\<forall>r. r \<noteq> fst (getLogPusher env (LogGroupName e) (LogStreamName e) e)
          \<longrightarrow> pushers (snd (Shutdown env e)) r = pushers e r)"
    by (simp add: Shutdown_eq callsDuring_def getLogPusher_calls getLogPusher_pushers)
  show ?thesis
    using l o Shutdown_exact [where env = env and e = e] by blast
qed

theorem Shutdown_flushes_configured_witness:
  "fst (Shutdown failingEnv (newExporter ''g'' ''s'' 1 0)) = None
   \<and> callsDuring (newExporter ''g'' ''s'' 1 0) (snd (Shutdown failingEnv (newExporter ''g'' ''s'' 1 0)))
       = [CallNewPusher ''g'' ''s'' 0, CallForceFlush 0 (Some (PusherError ''flush failed''))]
   \<and> fst (getLogPusher failingEnv ''g'' ''s''
        (run failingEnv [OpGetLogPusher ''other'' ''s'', OpPushLogs (batchOf [stamped 1])]
           (newExporter ''g'' ''s'' 1 0))) = 1
   \<and> callsDuring
        (run failingEnv [OpGetLogPusher ''other'' ''s'', OpPushLogs (batchOf [stamped 1])]
           (newExporter ''g'' ''s'' 1 0))
        (snd (Shutdown failingEnv
           (run failingEnv [OpGetLogPusher ''other'' ''s'', OpPushLogs (batchOf [stamped 1])]
              (newExporter ''g'' ''s'' 1 0))))
       = [CallForceFlush 1 (Some (PusherError ''flush failed''))]
   \<and> fst (Shutdown failingEnv
        (run failingEnv [OpGetLogPusher ''other'' ''s'', OpPushLogs (batchOf [stamped 1])]
           (newExporter ''g'' ''s'' 1 0))) = None
   \<and> pushers (addLogEvents recordingEnv 0 [stampedEvent 1, stampedEvent 2]
        (snd (getLogPusher recordingEnv ''g'' ''s'' (newExporter ''g'' ''s'' 1 ([], []))))) 0
       = ([\<lparr>InputLogEvent = stampedEvent 1, GeneratedTime = 0\<rparr>,
           \<lparr>InputLogEvent = stampedEvent 2, GeneratedTime = 1\<rparr>], [])
   \<and> pushers (snd (Shutdown recordingEnv
        (addLogEvents recordingEnv 0 [stampedEvent 1, stampedEvent 2]
           (snd (getLogPusher recordingEnv ''g'' ''s'' (newExporter ''g'' ''s'' 1 ([], []))))))) 0
       = ([], [[\<lparr>InputLogEvent = stampedEvent 1, GeneratedTime = 0\<rparr>,
                \<lparr>InputLogEvent = stampedEvent 2, GeneratedTime = 1\<rparr>]])
   \<and> pushers (snd (Shutdown recordingEnv (newExporter ''g'' ''s'' 1 ([], [])))) 0 = ([], [[]])
   \<and> callsDuring (newExporter ''g'' ''s'' 1 ([], []))
        (snd (Shutdown recordingEnv (newExporter ''g'' ''s'' 1 ([], []))))
       = [CallNewPusher ''g'' ''s'' 0, CallForceFlush 0 (Some (PusherError ''nothing to flush''))]
   \<and> fst (Shutdown recordingEnv (newExporter ''g'' ''s'' 1 ([], []))) = None"
proof -
  let ?e = "newExporter ''g'' ''s'' 1 (0::nat)"
  let ?e' = "run failingEnv [OpGetLogPusher ''other'' ''s'', OpPushLogs (batchOf [stamped 1])] ?e"
  let ?n = "newExporter ''g'' ''s'' 1 ([]::Event list, []::Event list list)"
  let ?h = "addLogEvents recordingEnv 0 [stampedEvent 1, stampedEvent 2]
              (snd (getLogPusher recordingEnv ''g'' ''s'' ?n))"
  have a: "callsDuring ?e (snd (Shutdown failingEnv ?e))
       = [CallNewPusher ''g'' ''s'' 0, CallForceFlush 0 (Some (PusherError ''flush failed''))]"
    by code_simp
  have b: "fst (getLogPusher failingEnv ''g'' ''s'' ?e') = 1"
    by code_simp
  have c: "callsDuring ?e' (snd (Shutdown failingEnv ?e'))
       = [CallForceFlush 1 (Some (PusherError ''flush failed''))]"
    by code_simp
  have d: "fst (Shutdown failingEnv ?e) = None"
    using Shutdown_flushes_configured [of failingEnv ?e] by blast
  have f: "fst (Shutdown failingEnv ?e') = None"
    using Shutdown_flushes_configured [of failingEnv ?e'] by blast
  have g: "pushers ?h 0
       = ([\<lparr>InputLogEvent = stampedEvent 1, GeneratedTime = 0\<rparr>,
           \<lparr>InputLogEvent = stampedEvent 2, GeneratedTime = 1\<rparr>], [])"
    by code_simp
  have h: "pushers (snd (Shutdown recordingEnv ?h)) 0
       = ([], [[\<lparr>InputLogEvent = stampedEvent 1, GeneratedTime = 0\<rparr>,
                \<lparr>InputLogEvent = stampedEvent 2, GeneratedTime = 1\<rparr>]])"
    by code_simp
  have i: "pushers (snd (Shutdown recordingEnv ?n)) 0 = ([], [[]])"
    by code_simp
  have j: "constructionOf ?n @
         [CallForceFlush (configuredPusher recordingEnv ?n)
            (fst (ForceFlush recordingEnv (configuredState recordingEnv ?n)))]
       = [CallNewPusher ''g'' ''s'' 0, CallForceFlush 0 (Some (PusherError ''nothing to flush''))]"
    by code_simp
  have k: "callsDuring ?n (snd (Shutdown recordingEnv ?n))
       = [CallNewPusher ''g'' ''s'' 0, CallForceFlush 0 (Some (PusherError ''nothing to flush''))]"
    using Shutdown_flushes_configured [of recordingEnv ?n] unfolding j by blast
  have l: "fst (Shutdown recordingEnv ?n) = None"
    using Shutdown_flushes_configured [of recordingEnv ?n] by blast
  show ?thesis
    by (intro conjI d a b c f g h i k l)
qed

subsection \<open>The registry over the exporter's lifetime\<close>

text \<open>
  C4. Once \<open>getLogPusher\<close> has returned a Pusher for a key, a later call with the same
  key, after any operations of the exporter, returns the same reference and changes
  nothing, so constructs nothing; a key bound to a Pusher stays bound to it; and over
  any run from a new exporter the constructor is called at most once for a key.
\<close>

theorem getLogPusher_once:
  "(getLogPusher env g s e = (r, e1)
      \<longrightarrow> getLogPusher env g s (run env ops e1) = (r, run env ops e1))
   \<and> (lookupPusher e g s = Some r \<longrightarrow> lookupPusher (run env ops e) g s = Some r)
   \<and> length (filter (isNewPusherFor g s) (calls (run env ops (newExporter G S n p0)))) \<le> 1"
proof (intro conjI impI)
  assume a: "getLogPusher env g s e = (r, e1)"
  have "lookupPusher e1 g s = Some r"
    using getLogPusher_again [of env g s e] by (simp add: a)
  then have "lookupPusher (run env ops e1) g s = Some r"
    by (rule lookup_kept_run)
  then show "getLogPusher env g s (run env ops e1) = (r, run env ops e1)"
    by (rule getLogPusher_hit)
next
  assume "lookupPusher e g s = Some r"
  then show "lookupPusher (run env ops e) g s = Some r"
    by (rule lookup_kept_run)
next
  have "constructedOnce (run env ops (newExporter G S n p0))"
    by (rule constructedOnce_run) (rule constructedOnce_newExporter)
  then show "length (filter (isNewPusherFor g s) (calls (run env ops (newExporter G S n p0)))) \<le> 1"
    unfolding constructedOnce_def by (auto split: option.splits dest: spec [of _ g])
qed

theorem getLogPusher_once_witness:
  "fst (getLogPusher countingEnv ''g'' ''s'' (newExporter ''g'' ''s'' 1 0)) = 0
   \<and> fst (getLogPusher countingEnv ''g'' ''s''
        (run countingEnv
           [OpPushLogs (batchOf [stamped 1]), OpGetLogPusher ''g'' ''t'', OpGetLogPusher ''g'' ''s'',
            OpShutdown, OpPushLogs (batchOf [stamped 2])]
           (snd (getLogPusher countingEnv ''g'' ''s'' (newExporter ''g'' ''s'' 1 0))))) = 0
   \<and> lookupPusher
        (run countingEnv
           [OpPushLogs (batchOf [stamped 1]), OpGetLogPusher ''g'' ''t'', OpGetLogPusher ''g'' ''s'',
            OpShutdown, OpPushLogs (batchOf [stamped 2])]
           (newExporter ''g'' ''s'' 1 0)) ''g'' ''t'' = Some 1
   \<and> filter isNewPusher (calls
        (run countingEnv
           [OpPushLogs (batchOf [stamped 1]), OpGetLogPusher ''g'' ''t'', OpGetLogPusher ''g'' ''s'',
            OpShutdown, OpPushLogs (batchOf [stamped 2])]
           (newExporter ''g'' ''s'' 1 0)))
       = [CallNewPusher ''g'' ''s'' 0, CallNewPusher ''g'' ''t'' 1]"
proof -
  let ?e = "newExporter ''g'' ''s'' 1 (0::nat)"
  let ?ops = "[OpPushLogs (batchOf [stamped 1]), OpGetLogPusher ''g'' ''t'', OpGetLogPusher ''g'' ''s'',
            OpShutdown, OpPushLogs (batchOf [stamped 2])]"
  let ?e1 = "snd (getLogPusher countingEnv ''g'' ''s'' ?e)"
  have a: "fst (getLogPusher countingEnv ''g'' ''s'' ?e) = 0"
    by code_simp
  have h: "getLogPusher countingEnv ''g'' ''s'' ?e = (0, ?e1)"
    using a by (simp add: prod_eq_iff)
  have b: "fst (getLogPusher countingEnv ''g'' ''s'' (run countingEnv ?ops ?e1)) = 0"
    using getLogPusher_once [of countingEnv "''g''" "''s''" ?e 0 ?e1 ?ops] h by simp
  have c: "lookupPusher (run countingEnv ?ops ?e) ''g'' ''t'' = Some 1"
    by code_simp
  have d: "filter isNewPusher (calls (run countingEnv ?ops ?e))
       = [CallNewPusher ''g'' ''s'' 0, CallNewPusher ''g'' ''t'' 1]"
    by code_simp
  show ?thesis
    using a b c d by blast
qed

end
